theory Spec2Isabelle
  imports Main "HOL-Library.Word"
begin

section \<open>The clip archive migrator (bin/migrate.py)\<close>

text \<open>
  A shallow embedding of \<^verbatim>\<open>bin/migrate.py\<close>: the 54-byte archive header and its
  \<^verbatim>\<open>struct\<close> codec, the rebuilt S3 storage descriptor, the splice of
  \<^verbatim>\<open>update_binary\<close> and the read-modify-write pipeline of \<^verbatim>\<open>ImageMigrator.migrate\<close>.
  Python \<^verbatim>\<open>bytes\<close> are lists of 8-bit words, Python \<^verbatim>\<open>int\<close> is \<open>int\<close>, Python
  \<^verbatim>\<open>str\<close> is a list of code points, and every exception the code can raise is a value of
  the type \<open>error\<close>.
\<close>

subsection \<open>Bytes, strings, exceptions\<close>

type_synonym byte = "8 word"
type_synonym bytes = "byte list"
type_synonym py_str = "nat list"

datatype error =
    NoSuchKey
  | StructError
  | UnboundLocalError
  | UnicodeDecodeError
  | UnicodeEncodeError
  | UnknownStorageInfoType bytes
  | DecodeError
  | InvalidRange

text \<open>
  \<open>NoSuchKey\<close> is the botocore error of \<^verbatim>\<open>get_object\<close> on a key the bucket does not hold;
  \<open>StructError\<close> is \<^verbatim>\<open>struct.error\<close>; \<open>UnknownStorageInfoType t\<close> is the
  \<^verbatim>\<open>ValueError("Unknown storage info type: ...")\<close> of line 100, carrying the header's tag;
  \<open>DecodeError\<close> and \<open>InvalidRange\<close> are failures of the two external collaborators
  (the tagged-value codec, a ranged GET).
\<close>

definition ascii :: "string \<Rightarrow> py_str" where
  "ascii s = map of_char s"

definition bytes_lit :: "string \<Rightarrow> bytes" where
  "bytes_lit s = map of_char s"

text \<open>\<^verbatim>\<open>bytes(s, "utf-8")\<close>: the UTF-8 encoding of a string, code point by code point.
  Surrogates cannot be encoded; a Python string holds no code point from \<open>0x110000\<close> on.\<close>

definition utf8_encode_cp :: "nat \<Rightarrow> error + bytes" where
  "utf8_encode_cp c =
     (if c < 0x80 then Inr [of_nat c]
      else if c < 0x800 then Inr [of_nat (0xC0 + c div 64), of_nat (0x80 + c mod 64)]
      else if 0xD800 \<le> c \<and> c < 0xE000 then Inl UnicodeEncodeError
      else if c < 0x10000 then
        Inr [of_nat (0xE0 + c div 4096), of_nat (0x80 + (c div 64) mod 64),
             of_nat (0x80 + c mod 64)]
      else if c < 0x110000 then
        Inr [of_nat (0xF0 + c div 262144), of_nat (0x80 + (c div 4096) mod 64),
             of_nat (0x80 + (c div 64) mod 64), of_nat (0x80 + c mod 64)]
      else Inl UnicodeEncodeError)"

fun utf8_encode :: "py_str \<Rightarrow> error + bytes" where
  "utf8_encode [] = Inr []"
| "utf8_encode (c # cs) =
     (case utf8_encode_cp c of
        Inl e \<Rightarrow> Inl e
      | Inr b \<Rightarrow> (case utf8_encode cs of Inl e \<Rightarrow> Inl e | Inr bs \<Rightarrow> Inr (b @ bs)))"

text \<open>\<^verbatim>\<open>b.decode("utf-8")\<close>, strict: the well-formed byte sequences of UTF-8 only
  (no overlong form, no surrogate, nothing above \<open>0x10FFFF\<close>).\<close>

definition cont_in :: "nat \<Rightarrow> nat \<Rightarrow> byte \<Rightarrow> bool" where
  "cont_in lo hi b = (lo \<le> unat b \<and> unat b \<le> hi)"

definition cons_cp :: "nat \<Rightarrow> error + py_str \<Rightarrow> error + py_str" where
  "cons_cp c r = (case r of Inl e \<Rightarrow> Inl e | Inr cs \<Rightarrow> Inr (c # cs))"

fun utf8_decode :: "bytes \<Rightarrow> error + py_str" where
  "utf8_decode [] = Inr []"
| "utf8_decode (b # bs) =
     (let n = unat b in
      if n < 0x80 then cons_cp n (utf8_decode bs)
      else if 0xC2 \<le> n \<and> n \<le> 0xDF then
        (case bs of
           b1 # r \<Rightarrow>
             if cont_in 0x80 0xBF b1
             then cons_cp ((n - 0xC0) * 64 + (unat b1 - 0x80)) (utf8_decode r)
             else Inl UnicodeDecodeError
         | _ \<Rightarrow> Inl UnicodeDecodeError)
      else if 0xE0 \<le> n \<and> n \<le> 0xEF then
        (case bs of
           b1 # b2 # r \<Rightarrow>
             if cont_in (if n = 0xE0 then 0xA0 else 0x80) (if n = 0xED then 0x9F else 0xBF) b1
                \<and> cont_in 0x80 0xBF b2
             then cons_cp ((n - 0xE0) * 4096 + (unat b1 - 0x80) * 64 + (unat b2 - 0x80))
                    (utf8_decode r)
             else Inl UnicodeDecodeError
         | _ \<Rightarrow> Inl UnicodeDecodeError)
      else if 0xF0 \<le> n \<and> n \<le> 0xF4 then
        (case bs of
           b1 # b2 # b3 # r \<Rightarrow>
             if cont_in (if n = 0xF0 then 0x90 else 0x80) (if n = 0xF4 then 0x8F else 0xBF) b1
                \<and> cont_in 0x80 0xBF b2 \<and> cont_in 0x80 0xBF b3
             then cons_cp ((n - 0xF0) * 262144 + (unat b1 - 0x80) * 4096
                           + (unat b2 - 0x80) * 64 + (unat b3 - 0x80))
                    (utf8_decode r)
             else Inl UnicodeDecodeError
         | _ \<Rightarrow> Inl UnicodeDecodeError)
      else Inl UnicodeDecodeError)"

text \<open>\<^verbatim>\<open>b.strip(b"\x00")\<close>: the NUL bytes at both ends removed.\<close>

definition strip_nul :: "bytes \<Rightarrow> bytes" where
  "strip_nul bs = rev (dropWhile (\<lambda>b. b = 0) (rev (dropWhile (\<lambda>b. b = 0) bs)))"

text \<open>Python slices \<^verbatim>\<open>xs[a:b]\<close> and \<^verbatim>\<open>xs[a:]\<close>: a negative index counts from the end,
  and every index is clipped to the list.\<close>

definition slice_index :: "'a list \<Rightarrow> int \<Rightarrow> nat" where
  "slice_index xs i =
     (if i < 0 then nat (max 0 (i + int (length xs))) else min (nat i) (length xs))"

definition py_slice :: "'a list \<Rightarrow> int \<Rightarrow> int \<Rightarrow> 'a list" where
  "py_slice xs a b = take (slice_index xs b - slice_index xs a) (drop (slice_index xs a) xs)"

definition py_slice_from :: "'a list \<Rightarrow> int \<Rightarrow> 'a list" where
  "py_slice_from xs a = drop (slice_index xs a) xs"

subsection \<open>The header and its \<^verbatim>\<open>struct\<close> codec, format \<^verbatim>\<open><9sBqqqq12s\<close>\<close>

definition CLIP_ARCHIVE_HEADER_SIZE :: nat where
  "CLIP_ARCHIVE_HEADER_SIZE = 54"

record ClipArchiveHeader =
  start_bytes :: bytes
  clip_file_format_version :: int
  index_length :: int
  index_pos :: int
  storage_info_length :: int
  storage_info_pos :: int
  storage_info_type :: bytes

primrec le_bytes :: "nat \<Rightarrow> nat \<Rightarrow> bytes" where
  "le_bytes 0 v = []"
| "le_bytes (Suc n) v = of_nat (v mod 256) # le_bytes n (v div 256)"

fun le_nat :: "bytes \<Rightarrow> nat" where
  "le_nat [] = 0"
| "le_nat (b # bs) = unat b + 256 * le_nat bs"

text \<open>\<^verbatim>\<open>q\<close>: a signed 64-bit integer, little-endian, two's complement. Packing a value
  out of range raises \<^verbatim>\<open>struct.error\<close>.\<close>

definition unpack_q :: "bytes \<Rightarrow> int" where
  "unpack_q bs = (let u = int (le_nat bs) in if u < 2 ^ 63 then u else u - 2 ^ 64)"

definition pack_q :: "int \<Rightarrow> error + bytes" where
  "pack_q v =
     (if - (2 ^ 63) \<le> v \<and> v < 2 ^ 63 then Inr (le_bytes 8 (nat (v mod 2 ^ 64)))
      else Inl StructError)"

text \<open>\<^verbatim>\<open>B\<close>: an unsigned byte; \<^verbatim>\<open>9s\<close>, \<^verbatim>\<open>12s\<close>: a byte string cut or NUL-padded
  to its width.\<close>

definition pack_B :: "int \<Rightarrow> error + bytes" where
  "pack_B v = (if 0 \<le> v \<and> v \<le> 255 then Inr [of_int v] else Inl StructError)"

definition pack_s :: "nat \<Rightarrow> bytes \<Rightarrow> bytes" where
  "pack_s n bs = take n bs @ replicate (n - length bs) 0"

text \<open>\<^verbatim>\<open>struct.unpack("<9sBqqqq12s", data)\<close>: \<^verbatim>\<open>struct.error\<close> unless \<^verbatim>\<open>data\<close> has
  exactly 54 bytes.\<close>

definition struct_unpack :: "bytes \<Rightarrow> error + (bytes \<times> int \<times> int \<times> int \<times> int \<times> int \<times> bytes)" where
  "struct_unpack data =
     (if length data \<noteq> 54 then Inl StructError
      else Inr (take 9 data,
                uint (data ! 9),
                unpack_q (take 8 (drop 10 data)),
                unpack_q (take 8 (drop 18 data)),
                unpack_q (take 8 (drop 26 data)),
                unpack_q (take 8 (drop 34 data)),
                drop 42 data))"

text \<open>\<^verbatim>\<open>struct.pack("<9sBqqqq12s", ...)\<close> of the header's seven fields
  (\<^verbatim>\<open>update_binary\<close>, lines 194-203).\<close>

definition struct_pack :: "ClipArchiveHeader \<Rightarrow> error + bytes" where
  "struct_pack h =
     (case pack_B (clip_file_format_version h) of Inl e \<Rightarrow> Inl e | Inr v \<Rightarrow>
     (case pack_q (index_length h) of Inl e \<Rightarrow> Inl e | Inr il \<Rightarrow>
     (case pack_q (index_pos h) of Inl e \<Rightarrow> Inl e | Inr ip \<Rightarrow>
     (case pack_q (storage_info_length h) of Inl e \<Rightarrow> Inl e | Inr sl \<Rightarrow>
     (case pack_q (storage_info_pos h) of Inl e \<Rightarrow> Inl e | Inr sp \<Rightarrow>
        Inr (pack_s 9 (start_bytes h) @ v @ il @ ip @ sl @ sp
             @ pack_s 12 (storage_info_type h)))))))"

text \<open>Lines 151-167 of \<^verbatim>\<open>get_header\<close>, on the bytes read. The \<^verbatim>\<open>except struct.error\<close>
  branch only prints, so the next statement reads the unbound local \<^verbatim>\<open>unpacked_data\<close>:
  the caller sees \<^verbatim>\<open>UnboundLocalError\<close>.\<close>

definition decode_header :: "bytes \<Rightarrow> error + ClipArchiveHeader" where
  "decode_header data =
     (case struct_unpack data of
        Inl e \<Rightarrow> Inl UnboundLocalError
      | Inr (f0, f1, f2, f3, f4, f5, f6) \<Rightarrow>
          Inr \<lparr>start_bytes = f0, clip_file_format_version = f1, index_length = f2,
               index_pos = f3, storage_info_length = f4, storage_info_pos = f5,
               storage_info_type = f6\<rparr>)"

subsection \<open>The storage descriptor, the configuration and the migrator\<close>

record S3StorageInfo =
  Bucket :: bytes
  Region :: bytes
  Key :: bytes
  Endpoint :: bytes

record StorageInfoWrapper =
  Type :: bytes
  Data :: bytes

record BucketConfiguration =
  bucket :: py_str
  region :: py_str
  endpoint :: py_str
  force_path_style :: bool
  access_key :: "py_str option"
  secret_key :: "py_str option"

record ImageMigrator =
  source_bucket :: BucketConfiguration
  target_bucket :: BucketConfiguration

subsection \<open>External collaborators\<close>

text \<open>
  Two libraries the file imports are not part of it and are parameters of the model:
  \<^item> \<^verbatim>\<open>pygob\<close>: \<^verbatim>\<open>pygob.dump\<close> on a descriptor and on a wrapper, and \<^verbatim>\<open>pygob.load\<close>
    read as a wrapper (the caller takes its \<^verbatim>\<open>Data\<close>) and as a descriptor (the caller takes
    its \<^verbatim>\<open>Key\<close>, a byte string, so \<^verbatim>\<open>bytes(s3_info.Key)\<close> is that byte string); each
    may raise;
  \<^item> the ranged GET of \<^verbatim>\<open>get_s3_storage_info\<close>: \<open>ranged_read body pos length\<close> is what
    \<^verbatim>\<open>get_object(..., Range=f"bytes={pos}-{pos + length - 1}")["Body"].read(length)\<close> gives
    for an object whose content is \<open>body\<close>.
  The general theorems below hold for all values of these parameters; the runs on
  concrete archives take for them the codec and the ranged GET of the specification.
\<close>

record externals =
  pygob_dump_info :: "S3StorageInfo \<Rightarrow> error + bytes"
  pygob_dump_wrapper :: "StorageInfoWrapper \<Rightarrow> error + bytes"
  pygob_load_wrapper :: "bytes \<Rightarrow> error + StorageInfoWrapper"
  pygob_load_info :: "bytes \<Rightarrow> error + S3StorageInfo"
  ranged_read :: "bytes \<Rightarrow> int \<Rightarrow> int \<Rightarrow> error + bytes"

text \<open>
  Object storage: each client talks to the bucket its configuration names at the
  endpoint it names; a bucket maps keys to objects. The source and the target client
  see the same objects exactly when endpoint and bucket agree. \<^verbatim>\<open>get_object\<close> of a
  missing key raises; \<^verbatim>\<open>put_object\<close> replaces the whole object.
\<close>

type_synonym location = "py_str \<times> py_str"
type_synonym s3_world = "location \<Rightarrow> py_str \<Rightarrow> bytes option"

definition location_of :: "BucketConfiguration \<Rightarrow> location" where
  "location_of c = (endpoint c, bucket c)"

definition get_object :: "s3_world \<Rightarrow> BucketConfiguration \<Rightarrow> py_str \<Rightarrow> error + bytes" where
  "get_object w c k = (case w (location_of c) k of None \<Rightarrow> Inl NoSuchKey | Some body \<Rightarrow> Inr body)"

definition put_object :: "s3_world \<Rightarrow> BucketConfiguration \<Rightarrow> py_str \<Rightarrow> bytes \<Rightarrow> s3_world" where
  "put_object w c k body = w(location_of c := (w (location_of c))(k \<mapsto> body))"

subsection \<open>The methods of \<^verbatim>\<open>ImageMigrator\<close>\<close>

text \<open>\<^verbatim>\<open>get_header\<close> (lines 143-167): \<^verbatim>\<open>read(54)\<close> gives at most 54 bytes.\<close>

definition get_header :: "ImageMigrator \<Rightarrow> py_str \<Rightarrow> s3_world \<Rightarrow> error + ClipArchiveHeader" where
  "get_header self image_key w =
     (case get_object w (source_bucket self) image_key of
        Inl e \<Rightarrow> Inl e
      | Inr body \<Rightarrow> decode_header (take CLIP_ARCHIVE_HEADER_SIZE body))"

text \<open>\<^verbatim>\<open>get_s3_storage_info\<close> (lines 169-182).\<close>

definition get_s3_storage_info ::
  "externals \<Rightarrow> ImageMigrator \<Rightarrow> py_str \<Rightarrow> int \<Rightarrow> int \<Rightarrow> s3_world \<Rightarrow> error + S3StorageInfo" where
  "get_s3_storage_info ex self image_key pos len w =
     (case get_object w (source_bucket self) image_key of Inl e \<Rightarrow> Inl e | Inr body \<Rightarrow>
     (case ranged_read ex body pos len of Inl e \<Rightarrow> Inl e | Inr data \<Rightarrow>
     (case pygob_load_wrapper ex data of Inl e \<Rightarrow> Inl e | Inr wrapper \<Rightarrow>
        pygob_load_info ex (Data wrapper))))"

text \<open>\<^verbatim>\<open>download_full_archive\<close> (lines 184-188).\<close>

definition download_full_archive :: "ImageMigrator \<Rightarrow> py_str \<Rightarrow> s3_world \<Rightarrow> error + bytes" where
  "download_full_archive self image_key w = get_object w (source_bucket self) image_key"

text \<open>\<^verbatim>\<open>update_binary\<close> (lines 190-213): the packed header, then
  \<^verbatim>\<open>full_data[54 : header.storage_info_pos]\<close>, the new section, and
  \<^verbatim>\<open>full_data[header.storage_info_pos + header.storage_info_length :]\<close>.\<close>

definition update_binary :: "bytes \<Rightarrow> ClipArchiveHeader \<Rightarrow> bytes \<Rightarrow> error + bytes" where
  "update_binary full_data header new_s3_info_data =
     (case struct_pack header of
        Inl e \<Rightarrow> Inl e
      | Inr updated_header \<Rightarrow>
          Inr (updated_header
               @ py_slice full_data (int CLIP_ARCHIVE_HEADER_SIZE) (storage_info_pos header)
               @ new_s3_info_data
               @ py_slice_from full_data (storage_info_pos header + storage_info_length header)))"

text \<open>\<^verbatim>\<open>upload_to_target_bucket\<close> (lines 215-218).\<close>

definition upload_to_target_bucket :: "ImageMigrator \<Rightarrow> py_str \<Rightarrow> bytes \<Rightarrow> s3_world \<Rightarrow> s3_world" where
  "upload_to_target_bucket self image_key data w = put_object w (target_bucket self) image_key data"

text \<open>Lines 110-116 of \<^verbatim>\<open>migrate\<close>: the rebuilt descriptor. The three coordinates are
  read from \<^verbatim>\<open>self.source_bucket\<close>.\<close>

definition new_s3_info :: "ImageMigrator \<Rightarrow> S3StorageInfo \<Rightarrow> error + S3StorageInfo" where
  "new_s3_info self s3_info =
     (case utf8_encode (bucket (source_bucket self)) of Inl e \<Rightarrow> Inl e | Inr b \<Rightarrow>
     (case utf8_encode (region (source_bucket self)) of Inl e \<Rightarrow> Inl e | Inr r \<Rightarrow>
     (case utf8_encode (endpoint (source_bucket self)) of Inl e \<Rightarrow> Inl e | Inr ep \<Rightarrow>
        Inr \<lparr>Bucket = b, Region = r, Key = Key s3_info, Endpoint = ep\<rparr>)))"

text \<open>Lines 118-128 of \<^verbatim>\<open>migrate\<close>: the descriptor serialised, wrapped with the tag
  \<^verbatim>\<open>b"s3"\<close> and serialised again; line 128 loads the result back for printing, which
  may raise.\<close>

definition new_wrapper_data :: "externals \<Rightarrow> S3StorageInfo \<Rightarrow> error + bytes" where
  "new_wrapper_data ex info =
     (case pygob_dump_info ex info of Inl e \<Rightarrow> Inl e | Inr new_s3_info_data \<Rightarrow>
     (case pygob_dump_wrapper ex \<lparr>Type = bytes_lit ''s3'', Data = new_s3_info_data\<rparr> of
        Inl e \<Rightarrow> Inl e
      | Inr wrapper_data \<Rightarrow>
     (case pygob_load_wrapper ex wrapper_data of
        Inl e \<Rightarrow> Inl e
      | Inr printed \<Rightarrow> Inr wrapper_data)))"

text \<open>\<^verbatim>\<open>migrate\<close> (lines 96-141). The result pairs the outcome (\<open>Inl\<close> the exception
  raised, \<open>Inr ()\<close> a normal return) with the object storage afterwards.\<close>

definition migrate :: "externals \<Rightarrow> ImageMigrator \<Rightarrow> py_str \<Rightarrow> s3_world \<Rightarrow> (error + unit) \<times> s3_world" where
  "migrate ex self image_key w =
     (case get_header self image_key w of Inl e \<Rightarrow> (Inl e, w) | Inr header \<Rightarrow>
     (case utf8_decode (strip_nul (storage_info_type header)) of
        Inl e \<Rightarrow> (Inl e, w)
      | Inr tag \<Rightarrow>
     if tag \<noteq> ascii ''s3'' then (Inl (UnknownStorageInfoType (storage_info_type header)), w)
     else
     (case get_s3_storage_info ex self image_key (storage_info_pos header)
             (storage_info_length header) w of
        Inl e \<Rightarrow> (Inl e, w)
      | Inr s3_info \<Rightarrow>
     (case new_s3_info self s3_info of Inl e \<Rightarrow> (Inl e, w) | Inr info \<Rightarrow>
     (case new_wrapper_data ex info of Inl e \<Rightarrow> (Inl e, w) | Inr wrapper_data \<Rightarrow>
     (case download_full_archive self image_key w of Inl e \<Rightarrow> (Inl e, w) | Inr full_data \<Rightarrow>
     (case update_binary full_data
             (header\<lparr>storage_info_length := int (length wrapper_data)\<rparr>) wrapper_data of
        Inl e \<Rightarrow> (Inl e, w)
      | Inr updated_data \<Rightarrow>
          (Inr (), upload_to_target_bucket self image_key updated_data w))))))))"

text \<open>A client of the migrated archive: the same methods, reading from the target bucket.\<close>

definition reader :: "ImageMigrator \<Rightarrow> ImageMigrator" where
  "reader self = self\<lparr>source_bucket := target_bucket self\<rparr>"

text \<open>Lines 97-106 as a reader runs them: the header, then the descriptor it points to.\<close>

definition read_descriptor :: "externals \<Rightarrow> ImageMigrator \<Rightarrow> py_str \<Rightarrow> s3_world \<Rightarrow> error + S3StorageInfo" where
  "read_descriptor ex self image_key w =
     (case get_header self image_key w of
        Inl e \<Rightarrow> Inl e
      | Inr header \<Rightarrow>
          get_s3_storage_info ex self image_key (storage_info_pos header)
            (storage_info_length header) w)"

subsection \<open>The splice as the specification words it\<close>

text \<open>Section 4.4 of the specification, steps 1 to 3: the bytes before the old section
  (after the 54 header bytes, which are re-encoded), the new section, and everything from
  the old section's end \<open>pos + old_length\<close> on.\<close>

definition spec_splice :: "bytes \<Rightarrow> bytes \<Rightarrow> nat \<Rightarrow> nat \<Rightarrow> bytes \<Rightarrow> bytes" where
  "spec_splice header_bytes full_data pos old_length new_bytes =
     header_bytes @ take (pos - 54) (drop 54 full_data) @ new_bytes
     @ drop (pos + old_length) full_data"

subsection \<open>Valid headers\<close>

text \<open>A structurally valid header: 9 bytes of magic, a version that fits a byte, four
  integers that fit 64 bits signed, a 12-byte type tag.\<close>

definition int64 :: "int \<Rightarrow> bool" where
  "int64 v = (- (2 ^ 63) \<le> v \<and> v < 2 ^ 63)"

definition valid_header :: "ClipArchiveHeader \<Rightarrow> bool" where
  "valid_header h =
     (length (start_bytes h) = 9 \<and> 0 \<le> clip_file_format_version h
      \<and> clip_file_format_version h \<le> 255 \<and> int64 (index_length h) \<and> int64 (index_pos h)
      \<and> int64 (storage_info_length h) \<and> int64 (storage_info_pos h)
      \<and> length (storage_info_type h) = 12)"

subsection \<open>A tagged-value codec and a ranged GET, from the specification\<close>

text \<open>
  Modelled from the spec: the tagged-value codec (section 4.2) that the code takes from the
  library \<^verbatim>\<open>pygob\<close>, whose source is not part of the repository. The specification fixes
  no wire format, only that the encoding is deterministic and self-describing, that it
  carries a type tag, and that decoding fails with \<^verbatim>\<open>DecodeError\<close> on truncated bytes, on an
  unknown tag and on a shape that does not fit. The format here: one tag byte (1 a
  descriptor, 2 a wrapper), then each field as its length in 8 little-endian bytes
  followed by its bytes.
\<close>

definition tv_field :: "bytes \<Rightarrow> bytes" where
  "tv_field f = le_bytes 8 (length f) @ f"

fun tv_fields :: "bytes list \<Rightarrow> bytes" where
  "tv_fields [] = []"
| "tv_fields (f # fs) = tv_field f @ tv_fields fs"

fun tv_parse :: "nat \<Rightarrow> bytes \<Rightarrow> error + bytes list" where
  "tv_parse 0 bs = (if bs = [] then Inr [] else Inl DecodeError)"
| "tv_parse (Suc n) bs =
     (if length bs < 8 then Inl DecodeError
      else if length (drop 8 bs) < le_nat (take 8 bs) then Inl DecodeError
      else (case tv_parse n (drop (le_nat (take 8 bs)) (drop 8 bs)) of
              Inl e \<Rightarrow> Inl e
            | Inr fs \<Rightarrow> Inr (take (le_nat (take 8 bs)) (drop 8 bs) # fs)))"

definition tv_encode :: "byte \<Rightarrow> bytes list \<Rightarrow> bytes" where
  "tv_encode tag fs = tag # tv_fields fs"

definition tv_decode :: "byte \<Rightarrow> nat \<Rightarrow> bytes \<Rightarrow> error + bytes list" where
  "tv_decode tag n bs =
     (case bs of
        [] \<Rightarrow> Inl DecodeError
      | t # r \<Rightarrow> if t = tag then tv_parse n r else Inl DecodeError)"

definition spec_dump_info :: "S3StorageInfo \<Rightarrow> error + bytes" where
  "spec_dump_info d = Inr (tv_encode 1 [Bucket d, Region d, Key d, Endpoint d])"

definition spec_load_info :: "bytes \<Rightarrow> error + S3StorageInfo" where
  "spec_load_info bs =
     (case tv_decode 1 4 bs of
        Inl e \<Rightarrow> Inl e
      | Inr fs \<Rightarrow>
          Inr \<lparr>Bucket = fs ! 0, Region = fs ! 1, Key = fs ! 2, Endpoint = fs ! 3\<rparr>)"

definition spec_dump_wrapper :: "StorageInfoWrapper \<Rightarrow> error + bytes" where
  "spec_dump_wrapper x = Inr (tv_encode 2 [Type x, Data x])"

definition spec_load_wrapper :: "bytes \<Rightarrow> error + StorageInfoWrapper" where
  "spec_load_wrapper bs =
     (case tv_decode 2 2 bs of
        Inl e \<Rightarrow> Inl e
      | Inr fs \<Rightarrow> Inr \<lparr>Type = fs ! 0, Data = fs ! 1\<rparr>)"

text \<open>A descriptor the codec can carry: every field shorter than \<open>2 ^ 64\<close> bytes.\<close>

definition valid_descriptor :: "S3StorageInfo \<Rightarrow> bool" where
  "valid_descriptor d =
     (length (Bucket d) < 2 ^ 64 \<and> length (Region d) < 2 ^ 64 \<and> length (Key d) < 2 ^ 64
      \<and> length (Endpoint d) < 2 ^ 64)"

text \<open>
  Modelled from the spec: the ranged GET of section 6, \<^verbatim>\<open>get_range(key, start, end)\<close>, an
  inclusive byte range fetch; the service behind it is not part of the repository. A
  range that starts inside the object gives the bytes \<open>pos\<close> to \<open>pos + length - 1\<close> that
  the object has. With length 0 the range \<^verbatim>\<open>bytes={pos}-{pos - 1}\<close> is malformed, the
  service ignores it and \<^verbatim>\<open>read(0)\<close> gives no byte. Any other range is refused.
\<close>

definition spec_ranged_read :: "bytes \<Rightarrow> int \<Rightarrow> int \<Rightarrow> error + bytes" where
  "spec_ranged_read body pos len =
     (if len = 0 then Inr []
      else if 0 \<le> pos \<and> 0 < len \<and> pos < int (length body)
      then Inr (take (nat len) (drop (nat pos) body))
      else Inl InvalidRange)"

definition spec_externals :: externals where
  "spec_externals =
     \<lparr>pygob_dump_info = spec_dump_info, pygob_dump_wrapper = spec_dump_wrapper,
      pygob_load_wrapper = spec_load_wrapper, pygob_load_info = spec_load_info,
      ranged_read = spec_ranged_read\<rparr>"

subsection \<open>Concrete archives\<close>

definition scfg :: BucketConfiguration where
  "scfg = \<lparr>bucket = ascii ''src'', region = ascii ''auto'', endpoint = ascii ''http://s'',
            force_path_style = False, access_key = None, secret_key = None\<rparr>"

definition tcfg :: BucketConfiguration where
  "tcfg = \<lparr>bucket = ascii ''tgt'', region = ascii ''us'', endpoint = ascii ''http://t'',
            force_path_style = False, access_key = None, secret_key = None\<rparr>"

definition migrator1 :: ImageMigrator where
  "migrator1 = \<lparr>source_bucket = scfg, target_bucket = tcfg\<rparr>"

definition key1 :: py_str where
  "key1 = ascii ''a.rclip''"

definition empty_world :: s3_world where
  "empty_world = (\<lambda>l k. None)"

definition magic1 :: bytes where
  "magic1 = bytes_lit ''CLIPARXV'' @ [0]"

definition tag_s3 :: bytes where
  "tag_s3 = bytes_lit ''s3'' @ replicate 10 0"

text \<open>The descriptor stored in the archives, and its section: 56 bytes.\<close>

definition descriptor1 :: S3StorageInfo where
  "descriptor1 = \<lparr>Bucket = bytes_lit ''b'', Region = bytes_lit ''r'', Key = bytes_lit ''k'',
                   Endpoint = bytes_lit ''e''\<rparr>"

definition section1 :: bytes where
  "section1 =
     tv_encode 2 [bytes_lit ''s3'',
       tv_encode 1 [bytes_lit ''b'', bytes_lit ''r'', bytes_lit ''k'', bytes_lit ''e'']]"

text \<open>The descriptor \<^verbatim>\<open>migrate\<close> rebuilds from it with \<open>migrator1\<close>, and its section: 68
  bytes, 12 more.\<close>

definition descriptor1_new :: S3StorageInfo where
  "descriptor1_new = \<lparr>Bucket = bytes_lit ''src'', Region = bytes_lit ''auto'',
                       Key = bytes_lit ''k'', Endpoint = bytes_lit ''http://s''\<rparr>"

definition section1_new :: bytes where
  "section1_new =
     tv_encode 2 [bytes_lit ''s3'',
       tv_encode 1 [bytes_lit ''src'', bytes_lit ''auto'', bytes_lit ''k'',
                    bytes_lit ''http://s'']]"

text \<open>Archive 1: header, descriptor section at 54, a 20-byte index at 110.\<close>

definition index1 :: bytes where
  "index1 = [1, 2, 3, 4, 5, 6, 7, 8, 9, 10, 11, 12, 13, 14, 15, 16, 17, 18, 19, 20]"

definition header1 :: ClipArchiveHeader where
  "header1 = \<lparr>start_bytes = magic1, clip_file_format_version = 1, index_length = 20,
               index_pos = 110, storage_info_length = 56, storage_info_pos = 54,
               storage_info_type = tag_s3\<rparr>"

definition header_bytes :: "int \<Rightarrow> int \<Rightarrow> int \<Rightarrow> int \<Rightarrow> bytes \<Rightarrow> bytes" where
  "header_bytes il ip sl sp tag =
     magic1 @ [1] @ le_bytes 8 (nat il) @ le_bytes 8 (nat ip) @ le_bytes 8 (nat sl)
     @ le_bytes 8 (nat sp) @ tag"

definition archive1 :: bytes where
  "archive1 = header_bytes 20 110 56 54 tag_s3 @ section1 @ index1"

definition world1 :: s3_world where
  "world1 = put_object empty_world scfg key1 archive1"

text \<open>Archive 2: header, a 3-byte index at 54, the descriptor section last, at 57.\<close>

definition header2 :: ClipArchiveHeader where
  "header2 = \<lparr>start_bytes = magic1, clip_file_format_version = 1, index_length = 3,
               index_pos = 54, storage_info_length = 56, storage_info_pos = 57,
               storage_info_type = tag_s3\<rparr>"

definition archive2 :: bytes where
  "archive2 = header_bytes 3 54 56 57 tag_s3 @ [1, 2, 3] @ section1"

definition world2 :: s3_world where
  "world2 = put_object empty_world scfg key1 archive2"

text \<open>Archives whose type tag is not \<^verbatim>\<open>s3\<close>: the tag \<^verbatim>\<open>gcs\<close>, and a tag that is not
  UTF-8 (the byte \<open>0xFF\<close>).\<close>

definition tag_gcs :: bytes where
  "tag_gcs = bytes_lit ''gcs'' @ replicate 9 0"

definition tag_ff :: bytes where
  "tag_ff = 255 # replicate 11 0"

definition world_gcs :: s3_world where
  "world_gcs = put_object empty_world scfg key1 (header_bytes 20 110 56 54 tag_gcs @ section1 @ index1)"

definition world_ff :: s3_world where
  "world_ff = put_object empty_world scfg key1 (header_bytes 20 110 56 54 tag_ff @ section1 @ index1)"

text \<open>An object too short to hold a header: 10 bytes.\<close>

definition world_short :: s3_world where
  "world_short = put_object empty_world scfg key1 (replicate 10 0)"

section \<open>Properties\<close>

subsection \<open>Little-endian integers and the header codec\<close>

lemma length_le_bytes: "length (le_bytes n v) = n"
  by (induction n arbitrary: v) simp_all

lemma le_nat_le_bytes: "le_nat (le_bytes n v) = v mod 256 ^ n"
proof (induction n arbitrary: v)
  case 0
  then show ?case by simp
next
  case (Suc n)
  have "unat (of_nat (v mod 256) :: byte) = v mod 256"
    by (simp add: unat_of_nat)
  then show ?case
    using Suc by (simp add: mod_mult2_eq)
qed

lemma le_nat_bound: "le_nat bs < 256 ^ length bs"
proof (induction bs)
  case Nil
  then show ?case by simp
next
  case (Cons b bs)
  have "unat b < 256" using unsigned_less [of b, where ?'a = nat] by simp
  with Cons show ?case by simp
qed

lemma le_bytes_le_nat: "le_bytes (length bs) (le_nat bs) = bs"
proof (induction bs)
  case Nil
  then show ?case by simp
next
  case (Cons b bs)
  have b: "unat b < 256" using unsigned_less [of b, where ?'a = nat] by simp
  then show ?case using Cons by simp
qed

lemma pack_q_length: "pack_q v = Inr bs \<Longrightarrow> length bs = 8"
  by (auto simp: pack_q_def length_le_bytes split: if_splits)

lemma smod64: "- (2 ^ 63) \<le> (v::int) \<Longrightarrow> v < 2 ^ 63 \<Longrightarrow>
    v mod 2 ^ 64 = (if 0 \<le> v then v else v + 2 ^ 64)"
proof -
  assume r: "- (2 ^ 63) \<le> v" "v < 2 ^ 63"
  show ?thesis
  proof (cases "0 \<le> v")
    case True
    then have "v mod 2 ^ 64 = v" using r by (intro mod_pos_pos_trivial) simp_all
    then show ?thesis using True by simp
  next
    case False
    have "(v + 2 ^ 64) mod 2 ^ 64 = v + 2 ^ 64"
      using r False by (intro mod_pos_pos_trivial) simp_all
    moreover have "(v + 2 ^ 64) mod 2 ^ 64 = v mod 2 ^ 64"
      by (rule mod_add_self2)
    ultimately show ?thesis using False by simp
  qed
qed

lemma unpack_pack_q: "pack_q v = Inr bs \<Longrightarrow> unpack_q bs = v"
proof -
  assume a: "pack_q v = Inr bs"
  then have r: "- (2 ^ 63) \<le> v" "v < 2 ^ 63" and bs: "bs = le_bytes 8 (nat (v mod 2 ^ 64))"
    by (auto simp: pack_q_def split: if_splits)
  have "v mod 2 ^ 64 < 2 ^ 64" by simp
  then have "nat (v mod 2 ^ 64) < 256 ^ 8" by simp
  then have m: "nat (v mod 2 ^ 64) mod 256 ^ 8 = nat (v mod 2 ^ 64)"
    by (rule mod_less)
  have "le_nat bs = nat (v mod 2 ^ 64)"
    unfolding bs le_nat_le_bytes by (rule m)
  then have "int (le_nat bs) = v mod 2 ^ 64" by simp
  then have "int (le_nat bs) = (if 0 \<le> v then v else v + 2 ^ 64)"
    using smod64 [OF r] by simp
  then show ?thesis
    using r by (auto simp: unpack_q_def Let_def)
qed

lemma unpack_q_range: "length bs = 8 \<Longrightarrow> - (2 ^ 63) \<le> unpack_q bs \<and> unpack_q bs < 2 ^ 63"
  using le_nat_bound [of bs] by (auto simp: unpack_q_def Let_def)

lemma pack_unpack_q: "length bs = 8 \<Longrightarrow> pack_q (unpack_q bs) = Inr bs"
proof -
  assume l: "length bs = 8"
  have b: "le_nat bs < 2 ^ 64" using le_nat_bound [of bs] l by simp
  have "unpack_q bs mod 2 ^ 64 = int (le_nat bs)"
    using b by (auto simp: unpack_q_def Let_def)
  then have "le_bytes 8 (nat (unpack_q bs mod 2 ^ 64)) = bs"
    using le_bytes_le_nat [of bs] l by simp
  then show ?thesis
    using unpack_q_range [OF l] by (simp add: pack_q_def)
qed

lemma length_pack_s: "length (pack_s n bs) = n"
  by (simp add: pack_s_def)

lemma pack_s_exact: "length bs = n \<Longrightarrow> pack_s n bs = bs"
  by (simp add: pack_s_def)

lemma pack_B_length: "pack_B v = Inr bs \<Longrightarrow> length bs = 1"
  by (auto simp: pack_B_def split: if_splits)

lemma unpack_pack_B: "pack_B v = Inr bs \<Longrightarrow> uint (bs ! 0) = v"
  by (auto simp: pack_B_def uint_word_of_int split: if_splits)

lemma struct_unpack_parts:
  assumes "length a = 9" "length v = 1" "length il = 8" "length ip = 8" "length sl = 8"
    "length sp = 8" "length t = 12"
  shows "struct_unpack (a @ v @ il @ ip @ sl @ sp @ t) =
    Inr (a, uint (v ! 0), unpack_q il, unpack_q ip, unpack_q sl, unpack_q sp, t)"
  using assms by (simp add: struct_unpack_def nth_append)

lemma struct_pack_cases:
  assumes "struct_pack h = Inr bs"
  obtains v il ip sl sp where
    "pack_B (clip_file_format_version h) = Inr v" "pack_q (index_length h) = Inr il"
    "pack_q (index_pos h) = Inr ip" "pack_q (storage_info_length h) = Inr sl"
    "pack_q (storage_info_pos h) = Inr sp"
    "bs = pack_s 9 (start_bytes h) @ v @ il @ ip @ sl @ sp @ pack_s 12 (storage_info_type h)"
  using assms by (auto simp: struct_pack_def split: sum.splits)

lemma struct_pack_length: "struct_pack h = Inr bs \<Longrightarrow> length bs = 54"
  by (erule struct_pack_cases)
    (simp add: length_pack_s pack_B_length pack_q_length)

lemma decode_struct_pack:
  assumes "struct_pack h = Inr bs"
  shows "decode_header bs =
    Inr (h\<lparr>start_bytes := pack_s 9 (start_bytes h),
          storage_info_type := pack_s 12 (storage_info_type h)\<rparr>)"
proof -
  from assms obtain v il ip sl sp where p:
    "pack_B (clip_file_format_version h) = Inr v" "pack_q (index_length h) = Inr il"
    "pack_q (index_pos h) = Inr ip" "pack_q (storage_info_length h) = Inr sl"
    "pack_q (storage_info_pos h) = Inr sp"
    and bs: "bs = pack_s 9 (start_bytes h) @ v @ il @ ip @ sl @ sp @ pack_s 12 (storage_info_type h)"
    by (rule struct_pack_cases)
  have "struct_unpack bs =
      Inr (pack_s 9 (start_bytes h), uint (v ! 0), unpack_q il, unpack_q ip, unpack_q sl,
           unpack_q sp, pack_s 12 (storage_info_type h))"
    unfolding bs
    by (rule struct_unpack_parts)
      (simp_all add: length_pack_s pack_B_length [OF p(1)] pack_q_length [OF p(2)]
        pack_q_length [OF p(3)] pack_q_length [OF p(4)] pack_q_length [OF p(5)])
  then show ?thesis
    by (simp add: decode_header_def unpack_pack_B [OF p(1)] unpack_pack_q [OF p(2)]
        unpack_pack_q [OF p(3)] unpack_pack_q [OF p(4)] unpack_pack_q [OF p(5)])
qed

lemma decode_header_short: "length data \<noteq> 54 \<Longrightarrow> decode_header data = Inl UnboundLocalError"
  by (simp add: decode_header_def struct_unpack_def)

lemma decode_header_total:
  "length data = 54 \<Longrightarrow>
   decode_header data =
     Inr \<lparr>start_bytes = take 9 data, clip_file_format_version = uint (data ! 9),
          index_length = unpack_q (take 8 (drop 10 data)),
          index_pos = unpack_q (take 8 (drop 18 data)),
          storage_info_length = unpack_q (take 8 (drop 26 data)),
          storage_info_pos = unpack_q (take 8 (drop 34 data)),
          storage_info_type = drop 42 data\<rparr>"
  by (simp add: decode_header_def struct_unpack_def)

lemma struct_pack_valid:
  assumes "valid_header h"
  shows "\<exists>bs. struct_pack h = Inr bs \<and> length bs = 54 \<and> decode_header bs = Inr h"
proof -
  from assms obtain bs where bs: "struct_pack h = Inr bs"
    by (auto simp: valid_header_def int64_def struct_pack_def pack_B_def pack_q_def)
  have "h\<lparr>start_bytes := pack_s 9 (start_bytes h),
          storage_info_type := pack_s 12 (storage_info_type h)\<rparr> = h"
    using assms by (simp add: valid_header_def pack_s_exact)
  with decode_struct_pack [OF bs] struct_pack_length [OF bs] bs show ?thesis by simp
qed

lemma decode_header_valid: "decode_header data = Inr h \<Longrightarrow> valid_header h"
proof -
  assume a: "decode_header data = Inr h"
  then have l: "length data = 54"
    by (auto simp: decode_header_def struct_unpack_def split: if_splits)
  have v: "0 \<le> uint (data ! 9) \<and> uint (data ! 9) \<le> 255"
    using uint_bounded [of "data ! 9"] by simp
  from a show ?thesis
    unfolding decode_header_total [OF l]
    using l v unpack_q_range [of "take 8 (drop 10 data)"] unpack_q_range [of "take 8 (drop 18 data)"]
      unpack_q_range [of "take 8 (drop 26 data)"] unpack_q_range [of "take 8 (drop 34 data)"]
    by (auto simp: valid_header_def int64_def)
qed

subsection \<open>The tagged-value codec of the specification\<close>

lemma tv_parse_fields:
  "list_all (\<lambda>f. length f < 2 ^ 64) fs \<Longrightarrow> tv_parse (length fs) (tv_fields fs) = Inr fs"
proof (induction fs)
  case Nil
  then show ?case by simp
next
  case (Cons f fs)
  then have f: "length f < 2 ^ 64" and fs: "tv_parse (length fs) (tv_fields fs) = Inr fs"
    by simp_all
  have n: "le_nat (le_bytes 8 (length f)) = length f"
    using f by (simp add: le_nat_le_bytes)
  show ?case
    by (simp add: tv_field_def length_le_bytes n fs)
qed

lemma tv_decode_encode:
  "list_all (\<lambda>f. length f < 2 ^ 64) fs \<Longrightarrow> n = length fs \<Longrightarrow>
   tv_decode tag n (tv_encode tag fs) = Inr fs"
  by (simp add: tv_decode_def tv_encode_def tv_parse_fields)

lemma spec_load_dump_info:
  assumes "valid_descriptor d"
  shows "\<exists>bs. spec_dump_info d = Inr bs \<and> spec_load_info bs = Inr d"
proof -
  have "tv_decode 1 4 (tv_encode 1 [Bucket d, Region d, Key d, Endpoint d])
        = Inr [Bucket d, Region d, Key d, Endpoint d]"
    using assms by (intro tv_decode_encode) (simp_all add: valid_descriptor_def)
  then have "spec_load_info (tv_encode 1 [Bucket d, Region d, Key d, Endpoint d]) = Inr d"
    by (simp add: spec_load_info_def)
  then show ?thesis by (simp add: spec_dump_info_def)
qed

lemma spec_load_dump_wrapper:
  assumes "length (Type x) < 2 ^ 64" "length (Data x) < 2 ^ 64"
  shows "\<exists>bs. spec_dump_wrapper x = Inr bs \<and> spec_load_wrapper bs = Inr x"
proof -
  have "tv_decode 2 2 (tv_encode 2 [Type x, Data x]) = Inr [Type x, Data x]"
    using assms by (intro tv_decode_encode) simp_all
  then have "spec_load_wrapper (tv_encode 2 [Type x, Data x]) = Inr x"
    by (simp add: spec_load_wrapper_def)
  then show ?thesis by (simp add: spec_dump_wrapper_def)
qed

subsection \<open>What a run of \<^verbatim>\<open>migrate\<close> does\<close>

lemma migrate_Inr_cases:
  assumes "migrate ex self key w = (Inr (), w')"
  obtains header s3_info info wd full updated where
    "get_header self key w = Inr header"
    "utf8_decode (strip_nul (storage_info_type header)) = Inr (ascii ''s3'')"
    "get_s3_storage_info ex self key (storage_info_pos header) (storage_info_length header) w
       = Inr s3_info"
    "new_s3_info self s3_info = Inr info"
    "new_wrapper_data ex info = Inr wd"
    "download_full_archive self key w = Inr full"
    "update_binary full (header\<lparr>storage_info_length := int (length wd)\<rparr>) wd = Inr updated"
    "w' = upload_to_target_bucket self key updated w"
  using assms by (auto simp: migrate_def split: sum.splits if_splits)

lemma migrate_Inl_frame: "fst (migrate ex self key w) = Inl e \<Longrightarrow> snd (migrate ex self key w) = w"
  by (auto simp: migrate_def split: sum.splits if_splits)

lemma get_object_cong:
  "w1 (location_of c) key = w2 (location_of c) key \<Longrightarrow> get_object w1 c key = get_object w2 c key"
  by (simp add: get_object_def)

lemma get_header_cong:
  "w1 (location_of (source_bucket self)) key = w2 (location_of (source_bucket self)) key \<Longrightarrow>
   get_header self key w1 = get_header self key w2"
  by (simp add: get_header_def get_object_def)

lemma get_s3_storage_info_cong:
  "w1 (location_of (source_bucket self)) key = w2 (location_of (source_bucket self)) key \<Longrightarrow>
   get_s3_storage_info ex self key pos len w1 = get_s3_storage_info ex self key pos len w2"
  by (simp add: get_s3_storage_info_def get_object_def)

lemma download_full_archive_cong:
  "w1 (location_of (source_bucket self)) key = w2 (location_of (source_bucket self)) key \<Longrightarrow>
   download_full_archive self key w1 = download_full_archive self key w2"
  by (simp add: download_full_archive_def get_object_def)

lemma migrate_fst_cong:
  assumes "w1 (location_of (source_bucket self)) key = w2 (location_of (source_bucket self)) key"
  shows "fst (migrate ex self key w1) = fst (migrate ex self key w2)"
proof -
  note c = get_header_cong [of w1 self key w2, OF assms]
    get_s3_storage_info_cong [of w1 self key w2, OF assms]
    download_full_archive_cong [of w1 self key w2, OF assms]
  show ?thesis
    unfolding migrate_def by (simp add: c split: sum.splits)
qed

lemma migrate_upload_cong:
  assumes "w1 (location_of (source_bucket self)) key = w2 (location_of (source_bucket self)) key"
    and "migrate ex self key w1 = (Inr (), w1')"
  shows "\<exists>data. w1' = upload_to_target_bucket self key data w1
      \<and> migrate ex self key w2 = (Inr (), upload_to_target_bucket self key data w2)"
proof -
  note c = get_header_cong [of w1 self key w2, OF assms(1)]
    get_s3_storage_info_cong [of w1 self key w2, OF assms(1)]
    download_full_archive_cong [of w1 self key w2, OF assms(1)]
  from assms(2) obtain header s3_info info wd full updated where s:
    "get_header self key w1 = Inr header"
    "utf8_decode (strip_nul (storage_info_type header)) = Inr (ascii ''s3'')"
    "get_s3_storage_info ex self key (storage_info_pos header) (storage_info_length header) w1
       = Inr s3_info"
    "new_s3_info self s3_info = Inr info"
    "new_wrapper_data ex info = Inr wd"
    "download_full_archive self key w1 = Inr full"
    "update_binary full (header\<lparr>storage_info_length := int (length wd)\<rparr>) wd = Inr updated"
    "w1' = upload_to_target_bucket self key updated w1"
    by (rule migrate_Inr_cases)
  have "migrate ex self key w2 = (Inr (), upload_to_target_bucket self key updated w2)"
    using s(1-7) by (simp add: migrate_def c [symmetric])
  with s(8) show ?thesis by blast
qed

subsection \<open>The run on archive 1\<close>

lemma length_header_bytes: "length tag = 12 \<Longrightarrow> length (header_bytes il ip sl sp tag) = 54"
  by (simp add: header_bytes_def magic1_def bytes_lit_def length_le_bytes)

lemma length_tags: "length tag_s3 = 12" "length tag_gcs = 12" "length tag_ff = 12"
  by (simp_all add: tag_s3_def tag_gcs_def tag_ff_def bytes_lit_def)

lemma length_section1: "length section1 = 56"
  by (simp add: section1_def tv_encode_def tv_field_def bytes_lit_def length_le_bytes)

lemma length_section1_new: "length section1_new = 68"
  by (simp add: section1_new_def tv_encode_def tv_field_def bytes_lit_def length_le_bytes)

lemma struct_pack_header_bytes:
  assumes "0 \<le> il" "il < 2 ^ 63" "0 \<le> ip" "ip < 2 ^ 63" "0 \<le> sl" "sl < 2 ^ 63"
    "0 \<le> sp" "sp < 2 ^ 63" "length tag = 12"
  shows "struct_pack \<lparr>start_bytes = magic1, clip_file_format_version = 1, index_length = il,
            index_pos = ip, storage_info_length = sl, storage_info_pos = sp,
            storage_info_type = tag\<rparr> = Inr (header_bytes il ip sl sp tag)"
proof -
  have m: "v mod 2 ^ 64 = v" if "0 \<le> v" "v < 2 ^ 63" for v :: int
    using that by (intro mod_pos_pos_trivial) simp_all
  have l: "length magic1 = 9" by (simp add: magic1_def bytes_lit_def)
  show ?thesis
    using assms
    by (simp add: struct_pack_def pack_B_def pack_q_def header_bytes_def m pack_s_exact l)
qed

lemma decode_header_bytes:
  assumes "0 \<le> il" "il < 2 ^ 63" "0 \<le> ip" "ip < 2 ^ 63" "0 \<le> sl" "sl < 2 ^ 63"
    "0 \<le> sp" "sp < 2 ^ 63" "length tag = 12"
  shows "decode_header (header_bytes il ip sl sp tag) =
      Inr \<lparr>start_bytes = magic1, clip_file_format_version = 1, index_length = il,
            index_pos = ip, storage_info_length = sl, storage_info_pos = sp,
            storage_info_type = tag\<rparr>"
proof -
  have l: "length magic1 = 9" by (simp add: magic1_def bytes_lit_def)
  show ?thesis
    using decode_struct_pack [OF struct_pack_header_bytes [OF assms]] assms(9)
    by (simp add: pack_s_exact l)
qed

lemma get_header_put:
  "length hb = 54 \<Longrightarrow>
   get_header self key (put_object w (source_bucket self) key (hb @ rest)) = decode_header hb"
  by (simp add: get_header_def get_object_def put_object_def CLIP_ARCHIVE_HEADER_SIZE_def)

lemma get_header_world1: "get_header migrator1 key1 world1 = Inr header1"
proof -
  have "get_header migrator1 key1 (put_object empty_world (source_bucket migrator1) key1
          (header_bytes 20 110 56 54 tag_s3 @ (section1 @ index1)))
        = decode_header (header_bytes 20 110 56 54 tag_s3)"
    by (rule get_header_put) (simp add: length_header_bytes length_tags)
  then show ?thesis
    by (simp add: world1_def archive1_def migrator1_def header1_def decode_header_bytes length_tags)
qed

lemma spec_load_wrapper_encode:
  "length t < 2 ^ 64 \<Longrightarrow> length d < 2 ^ 64 \<Longrightarrow>
   spec_load_wrapper (tv_encode 2 [t, d]) = Inr \<lparr>Type = t, Data = d\<rparr>"
  using spec_load_dump_wrapper [of "\<lparr>Type = t, Data = d\<rparr>"]
  by (simp add: spec_dump_wrapper_def)

lemma spec_load_info_encode:
  "length b < 2 ^ 64 \<Longrightarrow> length r < 2 ^ 64 \<Longrightarrow> length k < 2 ^ 64 \<Longrightarrow> length e < 2 ^ 64 \<Longrightarrow>
   spec_load_info (tv_encode 1 [b, r, k, e]) = Inr \<lparr>Bucket = b, Region = r, Key = k, Endpoint = e\<rparr>"
  using spec_load_dump_info [of "\<lparr>Bucket = b, Region = r, Key = k, Endpoint = e\<rparr>"]
  by (simp add: spec_dump_info_def valid_descriptor_def)

lemma utf8_encode_ascii:
  "list_all (\<lambda>c. (of_char c :: nat) < 128) s \<Longrightarrow> utf8_encode (ascii s) = Inr (bytes_lit s)"
proof (induction s)
  case Nil
  then show ?case by (simp add: ascii_def bytes_lit_def)
next
  case (Cons c s)
  then have c: "(of_char c :: nat) < 128" and s: "utf8_encode (ascii s) = Inr (bytes_lit s)"
    by simp_all
  have "utf8_encode_cp (of_char c) = Inr [of_char c]"
    using c by (simp add: utf8_encode_cp_def of_nat_of_char)
  then show ?case
    using s by (simp add: ascii_def bytes_lit_def)
qed

lemma get_object_world1: "get_object world1 scfg key1 = Inr archive1"
  by (simp add: world1_def get_object_def put_object_def)

lemma ranged_read_archive1: "spec_ranged_read archive1 54 56 = Inr section1"
  by (simp add: spec_ranged_read_def archive1_def length_header_bytes length_tags
      length_section1 index1_def)

lemma descriptor_world1:
  "get_s3_storage_info spec_externals migrator1 key1 54 56 world1 = Inr descriptor1"
proof -
  have w: "spec_load_wrapper section1 =
      Inr \<lparr>Type = bytes_lit ''s3'',
           Data = tv_encode 1 [bytes_lit ''b'', bytes_lit ''r'', bytes_lit ''k'', bytes_lit ''e'']\<rparr>"
    unfolding section1_def
    by (rule spec_load_wrapper_encode)
      (simp_all add: bytes_lit_def tv_encode_def tv_field_def length_le_bytes)
  have i: "spec_load_info (tv_encode 1 [bytes_lit ''b'', bytes_lit ''r'', bytes_lit ''k'', bytes_lit ''e''])
      = Inr descriptor1"
    unfolding descriptor1_def
    by (rule spec_load_info_encode) (simp_all add: bytes_lit_def)
  show ?thesis
    by (simp add: get_s3_storage_info_def migrator1_def get_object_world1 spec_externals_def
        ranged_read_archive1 w i)
qed

lemma new_s3_info_1: "new_s3_info migrator1 descriptor1 = Inr descriptor1_new"
  by (simp add: new_s3_info_def migrator1_def scfg_def utf8_encode_ascii descriptor1_def
      descriptor1_new_def)

lemma new_wrapper_data_1: "new_wrapper_data spec_externals descriptor1_new = Inr section1_new"
proof -
  have w: "spec_load_wrapper section1_new =
      Inr \<lparr>Type = bytes_lit ''s3'',
           Data = tv_encode 1 [bytes_lit ''src'', bytes_lit ''auto'', bytes_lit ''k'',
                               bytes_lit ''http://s'']\<rparr>"
    unfolding section1_new_def
    by (rule spec_load_wrapper_encode)
      (simp_all add: bytes_lit_def tv_encode_def tv_field_def length_le_bytes)
  show ?thesis
    using w
    by (simp add: new_wrapper_data_def spec_externals_def spec_dump_info_def
        spec_dump_wrapper_def descriptor1_new_def section1_new_def)
qed

lemma strip_nul_pad:
  assumes "bs \<noteq> []" "hd bs \<noteq> 0" "last bs \<noteq> 0"
  shows "strip_nul (bs @ replicate n 0) = bs"
proof -
  from assms(1,2) have 1: "dropWhile (\<lambda>b. b = 0) (bs @ replicate n 0) = bs @ replicate n 0"
    by (cases bs) simp_all
  have 2: "dropWhile (\<lambda>b. b = 0) (replicate n (0::byte) @ rev bs) = dropWhile (\<lambda>b. b = 0) (rev bs)"
    by (rule dropWhile_append2) simp
  from assms(1,3) have 3: "dropWhile (\<lambda>b. b = 0) (rev bs) = rev bs"
    by (cases bs rule: rev_cases) simp_all
  show ?thesis
    by (simp add: strip_nul_def 1 2 3)
qed

lemma update_binary_1:
  "update_binary archive1 (header1\<lparr>storage_info_length := 68\<rparr>) section1_new =
     Inr (header_bytes 20 110 68 54 tag_s3 @ section1_new @ drop 12 index1)"
proof -
  define h where "h = header1\<lparr>storage_info_length := 68\<rparr>"
  have p: "struct_pack h = Inr (header_bytes 20 110 68 54 tag_s3)"
    unfolding h_def header1_def using struct_pack_header_bytes [of 20 110 68 54 tag_s3]
    by (simp add: length_tags)
  have f: "storage_info_pos h = 54" "storage_info_length h = 68"
    by (simp_all add: h_def header1_def)
  have l: "length archive1 = 130"
    by (simp add: archive1_def length_header_bytes length_tags length_section1 index1_def)
  have a: "py_slice archive1 54 54 = []"
    by (simp add: py_slice_def)
  have b: "py_slice_from archive1 122 = drop 12 index1"
    by (simp add: py_slice_from_def slice_index_def l)
      (simp add: archive1_def length_header_bytes length_tags length_section1)
  have "update_binary archive1 h section1_new =
     Inr (header_bytes 20 110 68 54 tag_s3 @ section1_new @ drop 12 index1)"
    by (simp add: update_binary_def p CLIP_ARCHIVE_HEADER_SIZE_def f a b)
  then show ?thesis by (simp add: h_def)
qed

lemma utf8_decode_s3: "utf8_decode (bytes_lit ''s3'') = Inr (ascii ''s3'')"
  by (simp add: bytes_lit_def ascii_def cons_cp_def)

lemma strip_tag_s3: "strip_nul tag_s3 = bytes_lit ''s3''"
  unfolding tag_s3_def by (rule strip_nul_pad) (simp_all add: bytes_lit_def)

lemma migrate_world1:
  "migrate spec_externals migrator1 key1 world1 =
     (Inr (), upload_to_target_bucket migrator1 key1
                (header_bytes 20 110 68 54 tag_s3 @ section1_new @ drop 12 index1) world1)"
proof -
  have h: "storage_info_type header1 = tag_s3" "storage_info_pos header1 = 54"
    "storage_info_length header1 = 56"
    by (simp_all add: header1_def)
  have d: "download_full_archive migrator1 key1 world1 = Inr archive1"
    by (simp add: download_full_archive_def migrator1_def get_object_world1)
  show ?thesis
    by (simp add: migrate_def get_header_world1 h strip_tag_s3 utf8_decode_s3 descriptor_world1
        new_s3_info_1 new_wrapper_data_1 length_section1_new d update_binary_1)
qed

subsection \<open>The archive \<^verbatim>\<open>migrate\<close> uploads\<close>

lemma source_bucket_reader: "source_bucket (reader self) = target_bucket self"
  by (simp add: reader_def)

lemma get_header_uploaded:
  "length hb = 54 \<Longrightarrow>
   get_header (reader self) key (upload_to_target_bucket self key (hb @ rest) w) = decode_header hb"
  using get_header_put [of hb "reader self" key w rest]
  by (simp add: upload_to_target_bucket_def source_bucket_reader)

lemma uploaded_object:
  "upload_to_target_bucket self key data w (location_of (target_bucket self)) key = Some data"
  by (simp add: upload_to_target_bucket_def put_object_def)

lemma get_header_length:
  "get_header self key w = Inr h \<Longrightarrow> length (start_bytes h) = 9 \<and> length (storage_info_type h) = 12"
proof -
  assume "get_header self key w = Inr h"
  then obtain data where "decode_header data = Inr h"
    by (auto simp: get_header_def split: sum.splits)
  then have "valid_header h" by (rule decode_header_valid)
  then show ?thesis by (simp add: valid_header_def)
qed

lemma update_binary_cases:
  assumes "update_binary full_data header new = Inr out"
  obtains hb where "struct_pack header = Inr hb" "length hb = 54"
    "out = hb @ py_slice full_data 54 (storage_info_pos header) @ new
           @ py_slice_from full_data (storage_info_pos header + storage_info_length header)"
  using assms struct_pack_length [of header]
  by (auto simp: update_binary_def CLIP_ARCHIVE_HEADER_SIZE_def split: sum.splits)

lemma migrate_uploaded_header:
  assumes "migrate ex self key w = (Inr (), w')"
  obtains header s3_info info wd full hb where
    "get_header self key w = Inr header"
    "get_s3_storage_info ex self key (storage_info_pos header) (storage_info_length header) w
       = Inr s3_info"
    "new_s3_info self s3_info = Inr info"
    "new_wrapper_data ex info = Inr wd"
    "download_full_archive self key w = Inr full"
    "struct_pack (header\<lparr>storage_info_length := int (length wd)\<rparr>) = Inr hb"
    "w' (location_of (target_bucket self)) key =
       Some (hb @ py_slice full 54 (storage_info_pos header) @ wd
             @ py_slice_from full (storage_info_pos header + int (length wd)))"
    "get_header (reader self) key w' = Inr (header\<lparr>storage_info_length := int (length wd)\<rparr>)"
proof -
  from assms obtain header s3_info info wd full updated where s:
    "get_header self key w = Inr header"
    "utf8_decode (strip_nul (storage_info_type header)) = Inr (ascii ''s3'')"
    "get_s3_storage_info ex self key (storage_info_pos header) (storage_info_length header) w
       = Inr s3_info"
    "new_s3_info self s3_info = Inr info"
    "new_wrapper_data ex info = Inr wd"
    "download_full_archive self key w = Inr full"
    "update_binary full (header\<lparr>storage_info_length := int (length wd)\<rparr>) wd = Inr updated"
    "w' = upload_to_target_bucket self key updated w"
    by (rule migrate_Inr_cases)
  define h' where "h' = header\<lparr>storage_info_length := int (length wd)\<rparr>"
  from s(7) obtain hb where hb: "struct_pack h' = Inr hb" "length hb = 54"
    "updated = hb @ py_slice full 54 (storage_info_pos h') @ wd
           @ py_slice_from full (storage_info_pos h' + storage_info_length h')"
    unfolding h'_def [symmetric] by (rule update_binary_cases)
  have f: "storage_info_pos h' = storage_info_pos header" "storage_info_length h' = int (length wd)"
    by (simp_all add: h'_def)
  have l: "length (start_bytes h') = 9" "length (storage_info_type h') = 12"
    using get_header_length [OF s(1)] by (simp_all add: h'_def)
  have "decode_header hb = Inr h'"
    using decode_struct_pack [OF hb(1)] l by (simp add: pack_s_exact)
  then have g: "get_header (reader self) key w' = Inr h'"
    unfolding s(8) hb(3) using get_header_uploaded [OF hb(2)] by simp
  have u: "w' (location_of (target_bucket self)) key =
       Some (hb @ py_slice full 54 (storage_info_pos header) @ wd
             @ py_slice_from full (storage_info_pos header + int (length wd)))"
    unfolding s(8) hb(3) f by (rule uploaded_object)
  show ?thesis
    using that [OF s(1) s(3) s(4) s(5) s(6) hb(1) [unfolded h'_def] u g [unfolded h'_def]] .
qed

lemma new_wrapper_data_cases:
  assumes "new_wrapper_data ex info = Inr wd"
  obtains d where "pygob_dump_info ex info = Inr d"
    "pygob_dump_wrapper ex \<lparr>Type = bytes_lit ''s3'', Data = d\<rparr> = Inr wd"
  using assms by (auto simp: new_wrapper_data_def split: sum.splits)

lemma new_s3_info_Key: "new_s3_info self s3_info = Inr info \<Longrightarrow> Key info = Key s3_info"
  by (auto simp: new_s3_info_def split: sum.splits)

lemma new_s3_info_coordinates:
  "new_s3_info self s3_info = Inr info \<Longrightarrow>
   utf8_encode (bucket (source_bucket self)) = Inr (Bucket info)
   \<and> utf8_encode (region (source_bucket self)) = Inr (Region info)
   \<and> utf8_encode (endpoint (source_bucket self)) = Inr (Endpoint info)"
  by (auto simp: new_s3_info_def split: sum.splits)

subsection \<open>The upload of archive 1, read back\<close>

lemma load_section1_new:
  "spec_load_wrapper section1_new =
      Inr \<lparr>Type = bytes_lit ''s3'',
           Data = tv_encode 1 [bytes_lit ''src'', bytes_lit ''auto'', bytes_lit ''k'',
                               bytes_lit ''http://s'']\<rparr>"
  unfolding section1_new_def
  by (rule spec_load_wrapper_encode)
    (simp_all add: bytes_lit_def tv_encode_def tv_field_def length_le_bytes)

lemma load_descriptor1_new:
  "spec_load_info (tv_encode 1 [bytes_lit ''src'', bytes_lit ''auto'', bytes_lit ''k'',
                               bytes_lit ''http://s'']) = Inr descriptor1_new"
  unfolding descriptor1_new_def
  by (rule spec_load_info_encode) (simp_all add: bytes_lit_def)

lemma read_back_world1:
  "read_descriptor spec_externals (reader migrator1) key1
     (upload_to_target_bucket migrator1 key1
        (header_bytes 20 110 68 54 tag_s3 @ section1_new @ drop 12 index1) world1)
   = Inr descriptor1_new"
proof -
  define w' where "w' = upload_to_target_bucket migrator1 key1
        (header_bytes 20 110 68 54 tag_s3 @ section1_new @ drop 12 index1) world1"
  have h: "get_header (reader migrator1) key1 w' =
      Inr \<lparr>start_bytes = magic1, clip_file_format_version = 1, index_length = 20,
            index_pos = 110, storage_info_length = 68, storage_info_pos = 54,
            storage_info_type = tag_s3\<rparr>"
    unfolding w'_def
    using get_header_uploaded [of "header_bytes 20 110 68 54 tag_s3" migrator1 key1
        "section1_new @ drop 12 index1" world1]
    by (simp add: length_header_bytes length_tags decode_header_bytes)
  have o: "get_object w' (source_bucket (reader migrator1)) key1 =
      Inr (header_bytes 20 110 68 54 tag_s3 @ section1_new @ drop 12 index1)"
    by (simp add: get_object_def source_bucket_reader w'_def uploaded_object)
  have r: "spec_ranged_read (header_bytes 20 110 68 54 tag_s3 @ section1_new @ drop 12 index1) 54 68
      = Inr section1_new"
    by (simp add: spec_ranged_read_def length_header_bytes length_tags length_section1_new
        index1_def)
  have "read_descriptor spec_externals (reader migrator1) key1 w' = Inr descriptor1_new"
    by (simp add: read_descriptor_def h get_s3_storage_info_def o spec_externals_def r
        load_section1_new load_descriptor1_new)
  then show ?thesis by (simp add: w'_def)
qed

lemma uploaded_header_world1:
  "get_header (reader migrator1) key1 (snd (migrate spec_externals migrator1 key1 world1))
   = Inr (header1\<lparr>storage_info_length := 68\<rparr>)"
  using get_header_uploaded [of "header_bytes 20 110 68 54 tag_s3" migrator1 key1
        "section1_new @ drop 12 index1" world1]
  by (simp add: migrate_world1 length_header_bytes length_tags decode_header_bytes header1_def)

subsection \<open>Lengths of slices\<close>

lemma length_py_slice:
  "0 \<le> a \<Longrightarrow> a \<le> b \<Longrightarrow> nat b \<le> length xs \<Longrightarrow> length (py_slice xs a b) = nat b - nat a"
  by (simp add: py_slice_def slice_index_def)

lemma length_py_slice_from:
  "0 \<le> a \<Longrightarrow> nat a \<le> length xs \<Longrightarrow> length (py_slice_from xs a) = length xs - nat a"
  by (simp add: py_slice_from_def slice_index_def)

subsection \<open>The run on archive 2\<close>

lemma get_object_world2: "get_object world2 scfg key1 = Inr archive2"
  by (simp add: world2_def get_object_def put_object_def)

lemma get_header_world2: "get_header migrator1 key1 world2 = Inr header2"
proof -
  have "get_header migrator1 key1 (put_object empty_world (source_bucket migrator1) key1
          (header_bytes 3 54 56 57 tag_s3 @ ([1, 2, 3] @ section1)))
        = decode_header (header_bytes 3 54 56 57 tag_s3)"
    by (rule get_header_put) (simp add: length_header_bytes length_tags)
  then show ?thesis
    by (simp add: world2_def archive2_def migrator1_def header2_def decode_header_bytes length_tags)
qed

lemma ranged_read_archive2: "spec_ranged_read archive2 57 56 = Inr section1"
  by (simp add: spec_ranged_read_def archive2_def length_header_bytes length_tags length_section1)

lemma load_section1:
  "spec_load_wrapper section1 =
      Inr \<lparr>Type = bytes_lit ''s3'',
           Data = tv_encode 1 [bytes_lit ''b'', bytes_lit ''r'', bytes_lit ''k'', bytes_lit ''e'']\<rparr>"
  unfolding section1_def
  by (rule spec_load_wrapper_encode)
    (simp_all add: bytes_lit_def tv_encode_def tv_field_def length_le_bytes)

lemma load_descriptor1:
  "spec_load_info (tv_encode 1 [bytes_lit ''b'', bytes_lit ''r'', bytes_lit ''k'', bytes_lit ''e''])
      = Inr descriptor1"
  unfolding descriptor1_def
  by (rule spec_load_info_encode) (simp_all add: bytes_lit_def)

lemma descriptor_world2:
  "get_s3_storage_info spec_externals migrator1 key1 57 56 world2 = Inr descriptor1"
  by (simp add: get_s3_storage_info_def migrator1_def get_object_world2 spec_externals_def
      ranged_read_archive2 load_section1 load_descriptor1)

lemma length_archive2: "length archive2 = 113"
  by (simp add: archive2_def length_header_bytes length_tags length_section1)

lemma update_binary_2:
  "update_binary archive2 (header2\<lparr>storage_info_length := 68\<rparr>) section1_new =
     Inr (header_bytes 3 54 68 57 tag_s3 @ [1, 2, 3] @ section1_new)"
proof -
  define h where "h = header2\<lparr>storage_info_length := 68\<rparr>"
  have p: "struct_pack h = Inr (header_bytes 3 54 68 57 tag_s3)"
    unfolding h_def header2_def using struct_pack_header_bytes [of 3 54 68 57 tag_s3]
    by (simp add: length_tags)
  have f: "storage_info_pos h = 57" "storage_info_length h = 68"
    by (simp_all add: h_def header2_def)
  have a: "py_slice archive2 54 57 = [1, 2, 3]"
    by (simp add: py_slice_def slice_index_def length_archive2)
      (simp add: archive2_def length_header_bytes length_tags)
  have b: "py_slice_from archive2 125 = []"
    by (simp add: py_slice_from_def slice_index_def length_archive2)
  have "update_binary archive2 h section1_new =
     Inr (header_bytes 3 54 68 57 tag_s3 @ [1, 2, 3] @ section1_new)"
    by (simp add: update_binary_def p CLIP_ARCHIVE_HEADER_SIZE_def f a b)
  then show ?thesis by (simp add: h_def)
qed

lemma migrate_world2:
  "migrate spec_externals migrator1 key1 world2 =
     (Inr (), upload_to_target_bucket migrator1 key1
                (header_bytes 3 54 68 57 tag_s3 @ [1, 2, 3] @ section1_new) world2)"
proof -
  have h: "storage_info_type header2 = tag_s3" "storage_info_pos header2 = 57"
    "storage_info_length header2 = 56"
    by (simp_all add: header2_def)
  have d: "download_full_archive migrator1 key1 world2 = Inr archive2"
    by (simp add: download_full_archive_def migrator1_def get_object_world2)
  show ?thesis
    by (simp add: migrate_def get_header_world2 h strip_tag_s3 utf8_decode_s3 descriptor_world2
        new_s3_info_1 new_wrapper_data_1 length_section1_new d update_binary_2)
qed

subsection \<open>UTF-8 decoding and the type tag\<close>

lemma cons_cp_Inr: "cons_cp c r = Inr cs \<Longrightarrow> \<exists>cs'. r = Inr cs' \<and> cs = c # cs'"
  by (auto simp: cons_cp_def split: sum.splits)

lemma cons_cp_Inl: "cons_cp c r = Inl e \<Longrightarrow> r = Inl e"
  by (auto simp: cons_cp_def split: sum.splits)

lemma utf8_decode_Cons_cases:
  "utf8_decode (b # bs) = Inl UnicodeDecodeError
   \<or> (\<exists>c r. length r \<le> length bs \<and> utf8_decode (b # bs) = cons_cp c (utf8_decode r)
        \<and> (c < 128 \<longrightarrow> c = unat b \<and> r = bs))"
proof -
  let ?n = "unat b"
  consider (one) "?n < 0x80" | (two) "0xC2 \<le> ?n" "?n \<le> 0xDF" | (three) "0xE0 \<le> ?n" "?n \<le> 0xEF"
    | (four) "0xF0 \<le> ?n" "?n \<le> 0xF4"
    | (bad) "\<not> ?n < 0x80" "\<not> (0xC2 \<le> ?n \<and> ?n \<le> 0xDF)" "\<not> (0xE0 \<le> ?n \<and> ?n \<le> 0xEF)"
        "\<not> (0xF0 \<le> ?n \<and> ?n \<le> 0xF4)"
    by linarith
  then show ?thesis
  proof cases
    case one
    then have "utf8_decode (b # bs) = cons_cp ?n (utf8_decode bs)"
      by (simp add: Let_def)
    then show ?thesis by blast
  next
    case two
    then have n: "\<not> ?n < 0x80" by simp
    show ?thesis
    proof (cases bs)
      case Nil
      with two n show ?thesis by (simp add: Let_def)
    next
      case (Cons b1 r)
      show ?thesis
      proof (cases "cont_in 0x80 0xBF b1")
        case True
        define c where "c = (?n - 0xC0) * 64 + (unat b1 - 0x80)"
        have "utf8_decode (b # bs) = cons_cp c (utf8_decode r)"
          using two n True by (simp add: Let_def Cons c_def)
        moreover have "\<not> c < 128" using two by (simp add: c_def)
        moreover have "length r \<le> length bs" by (simp add: Cons)
        ultimately show ?thesis by blast
      next
        case False
        with two n show ?thesis by (simp add: Let_def Cons)
      qed
    qed
  next
    case three
    then have n: "\<not> ?n < 0x80" "\<not> (0xC2 \<le> ?n \<and> ?n \<le> 0xDF)" by simp_all
    show ?thesis
    proof (cases bs)
      case Nil
      with three n show ?thesis by (simp add: Let_def)
    next
      case c1: (Cons b1 r1)
      show ?thesis
      proof (cases r1)
        case Nil
        with three n show ?thesis by (simp add: Let_def c1)
      next
        case c2: (Cons b2 r)
        define lo :: nat where "lo = (if ?n = 0xE0 then 0xA0 else 0x80)"
        define hi :: nat where "hi = (if ?n = 0xED then 0x9F else 0xBF)"
        define c where "c = (?n - 0xE0) * 4096 + (unat b1 - 0x80) * 64 + (unat b2 - 0x80)"
        have eq: "utf8_decode (b # bs) =
            (if cont_in lo hi b1 \<and> cont_in 0x80 0xBF b2 then cons_cp c (utf8_decode r)
             else Inl UnicodeDecodeError)"
          using three n by (simp add: Let_def c1 c2 c_def lo_def hi_def)
        show ?thesis
        proof (cases "cont_in lo hi b1 \<and> cont_in 0x80 0xBF b2")
          case True
          have "utf8_decode (b # bs) = cons_cp c (utf8_decode r)"
            using True by (simp only: eq if_True simp_thms)
          moreover have "\<not> c < 128"
          proof (cases "?n = 0xE0")
            case e: True
            with True have "0xA0 \<le> unat b1" by (simp add: cont_in_def lo_def)
            then show ?thesis by (simp add: c_def)
          next
            case False
            with three have "0xE1 \<le> ?n" by simp
            then show ?thesis by (simp add: c_def)
          qed
          moreover have "length r \<le> length bs" by (simp add: c1 c2)
          ultimately show ?thesis by blast
        next
          case False
          then have "utf8_decode (b # bs) = Inl UnicodeDecodeError"
            by (simp only: eq if_False simp_thms)
          then show ?thesis by blast
        qed
      qed
    qed
  next
    case four
    then have n: "\<not> ?n < 0x80" "\<not> (0xC2 \<le> ?n \<and> ?n \<le> 0xDF)" "\<not> (0xE0 \<le> ?n \<and> ?n \<le> 0xEF)"
      by simp_all
    show ?thesis
    proof (cases bs)
      case Nil
      with four n show ?thesis by (simp add: Let_def)
    next
      case c1: (Cons b1 r1)
      show ?thesis
      proof (cases r1)
        case Nil
        with four n show ?thesis by (simp add: Let_def c1)
      next
        case c2: (Cons b2 r2)
        show ?thesis
        proof (cases r2)
          case Nil
          with four n show ?thesis by (simp add: Let_def c1 c2)
        next
          case c3: (Cons b3 r)
          define lo :: nat where "lo = (if ?n = 0xF0 then 0x90 else 0x80)"
          define hi :: nat where "hi = (if ?n = 0xF4 then 0x8F else 0xBF)"
          define c where "c = (?n - 0xF0) * 262144 + (unat b1 - 0x80) * 4096
                           + (unat b2 - 0x80) * 64 + (unat b3 - 0x80)"
          have eq: "utf8_decode (b # bs) =
              (if cont_in lo hi b1 \<and> cont_in 0x80 0xBF b2 \<and> cont_in 0x80 0xBF b3
               then cons_cp c (utf8_decode r) else Inl UnicodeDecodeError)"
            using four n by (simp add: Let_def c1 c2 c3 c_def lo_def hi_def)
          show ?thesis
          proof (cases "cont_in lo hi b1 \<and> cont_in 0x80 0xBF b2 \<and> cont_in 0x80 0xBF b3")
            case True
            have "utf8_decode (b # bs) = cons_cp c (utf8_decode r)"
              using True by (simp only: eq if_True simp_thms)
            moreover have "\<not> c < 128"
            proof (cases "?n = 0xF0")
              case e: True
              with True have "0x90 \<le> unat b1" by (simp add: cont_in_def lo_def)
              then show ?thesis by (simp add: c_def)
            next
              case False
              with four have "0xF1 \<le> ?n" by simp
              then show ?thesis by (simp add: c_def)
            qed
            moreover have "length r \<le> length bs" by (simp add: c1 c2 c3)
            ultimately show ?thesis by blast
          next
            case False
            then have "utf8_decode (b # bs) = Inl UnicodeDecodeError"
              by (simp only: eq if_False simp_thms)
            then show ?thesis by blast
          qed
        qed
      qed
    qed
  next
    case bad
    then have "utf8_decode (b # bs) = Inl UnicodeDecodeError"
      by (simp only: utf8_decode.simps Let_def if_False)
    then show ?thesis by blast
  qed
qed

lemma utf8_decode_error: "utf8_decode bs = Inl e \<Longrightarrow> e = UnicodeDecodeError"
proof (induction "length bs" arbitrary: bs rule: less_induct)
  case less
  show ?case
  proof (cases bs)
    case Nil
    with less.prems show ?thesis by simp
  next
    case (Cons b r0)
    from utf8_decode_Cons_cases [of b r0] show ?thesis
    proof
      assume "utf8_decode (b # r0) = Inl UnicodeDecodeError"
      with less.prems Cons show ?thesis by simp
    next
      assume "\<exists>c r. length r \<le> length r0 \<and> utf8_decode (b # r0) = cons_cp c (utf8_decode r)
        \<and> (c < 128 \<longrightarrow> c = unat b \<and> r = r0)"
      then obtain c r where r: "length r \<le> length r0"
        "utf8_decode (b # r0) = cons_cp c (utf8_decode r)" by blast
      from less.prems have "cons_cp c (utf8_decode r) = Inl e"
        unfolding Cons r(2) .
      then have "utf8_decode r = Inl e" by (rule cons_cp_Inl)
      moreover have "length r < length bs" using r(1) by (simp add: Cons)
      ultimately show ?thesis by (rule less.hyps [rotated])
    qed
  qed
qed

lemma utf8_decode_ascii_head:
  assumes "utf8_decode (b # bs) = Inr (c # cs)" and "c < 128"
  shows "unat b = c \<and> utf8_decode bs = Inr cs"
proof -
  from utf8_decode_Cons_cases [of b bs] assms(1)
  obtain c' r where r: "utf8_decode (b # bs) = cons_cp c' (utf8_decode r)"
    "c' < 128 \<longrightarrow> c' = unat b \<and> r = bs"
    by auto
  from assms(1) have "cons_cp c' (utf8_decode r) = Inr (c # cs)"
    unfolding r(1) .
  then have "utf8_decode r = Inr cs" "c' = c"
    by (auto dest: cons_cp_Inr)
  with r(2) assms(2) show ?thesis by simp
qed

lemma utf8_decode_Nil: "utf8_decode bs = Inr [] \<Longrightarrow> bs = []"
proof (cases bs)
  case Nil
  then show ?thesis by simp
next
  case (Cons b r0)
  assume a: "utf8_decode bs = Inr []"
  from utf8_decode_Cons_cases [of b r0] a
  obtain c r where "utf8_decode (b # r0) = cons_cp c (utf8_decode r)"
    unfolding Cons by auto
  with a have "cons_cp c (utf8_decode r) = Inr []" unfolding Cons by simp
  then show ?thesis by (auto dest: cons_cp_Inr)
qed

lemma unat_eq_numeral: "unat (b :: byte) = numeral k \<Longrightarrow> b = numeral k"
proof -
  assume "unat b = numeral k"
  then have "of_nat (unat b) = (of_nat (numeral k) :: byte)" by simp
  then show ?thesis by simp
qed

lemma utf8_decode_eq_s3:
  assumes "utf8_decode bs = Inr (ascii ''s3'')"
  shows "bs = bytes_lit ''s3''"
proof -
  from assms have a: "utf8_decode bs = Inr [115, 51]" by (simp add: ascii_def)
  then obtain b0 r0 where bs: "bs = b0 # r0" by (cases bs) auto
  from utf8_decode_ascii_head [of b0 r0 115 "[51]"] a
  have 0: "unat b0 = 115" "utf8_decode r0 = Inr [51]" unfolding bs by simp_all
  then obtain b1 r1 where r0: "r0 = b1 # r1" by (cases r0) auto
  from utf8_decode_ascii_head [of b1 r1 51 "[]"] 0(2)
  have 1: "unat b1 = 51" "utf8_decode r1 = Inr []" unfolding r0 by simp_all
  from 1(2) have "r1 = []" by (rule utf8_decode_Nil)
  moreover from 0(1) have "b0 = 115" by (rule unat_eq_numeral)
  moreover from 1(1) have "b1 = 51" by (rule unat_eq_numeral)
  ultimately show ?thesis by (simp add: bs r0 bytes_lit_def)
qed

lemma migrate_unknown_tag:
  assumes "get_header self image_key w = Inr header"
    and "strip_nul (storage_info_type header) \<noteq> bytes_lit ''s3''"
  shows "migrate ex self image_key w =
     (Inl (case utf8_decode (strip_nul (storage_info_type header)) of
             Inl u \<Rightarrow> UnicodeDecodeError
           | Inr tag \<Rightarrow> UnknownStorageInfoType (storage_info_type header)), w)"
proof (cases "utf8_decode (strip_nul (storage_info_type header))")
  case (Inl u)
  then have "u = UnicodeDecodeError" by (rule utf8_decode_error)
  with Inl assms(1) show ?thesis by (simp add: migrate_def)
next
  case (Inr tag)
  have "tag \<noteq> ascii ''s3''"
  proof
    assume "tag = ascii ''s3''"
    with Inr have "strip_nul (storage_info_type header) = bytes_lit ''s3''"
      by (intro utf8_decode_eq_s3) simp
    with assms(2) show False by contradiction
  qed
  with Inr assms(1) show ?thesis by (simp add: migrate_def)
qed

subsection \<open>The runs on the archives with another tag\<close>

lemma get_header_world_gcs:
  "get_header migrator1 key1 world_gcs = Inr (header1\<lparr>storage_info_type := tag_gcs\<rparr>)"
proof -
  have "get_header migrator1 key1 (put_object empty_world (source_bucket migrator1) key1
          (header_bytes 20 110 56 54 tag_gcs @ (section1 @ index1)))
        = decode_header (header_bytes 20 110 56 54 tag_gcs)"
    by (rule get_header_put) (simp add: length_header_bytes length_tags)
  then show ?thesis
    by (simp add: world_gcs_def migrator1_def header1_def decode_header_bytes length_tags)
qed

lemma get_header_world_ff:
  "get_header migrator1 key1 world_ff = Inr (header1\<lparr>storage_info_type := tag_ff\<rparr>)"
proof -
  have "get_header migrator1 key1 (put_object empty_world (source_bucket migrator1) key1
          (header_bytes 20 110 56 54 tag_ff @ (section1 @ index1)))
        = decode_header (header_bytes 20 110 56 54 tag_ff)"
    by (rule get_header_put) (simp add: length_header_bytes length_tags)
  then show ?thesis
    by (simp add: world_ff_def migrator1_def header1_def decode_header_bytes length_tags)
qed

lemma strip_tag_gcs: "strip_nul tag_gcs = bytes_lit ''gcs''"
  unfolding tag_gcs_def by (rule strip_nul_pad) (simp_all add: bytes_lit_def)

lemma strip_tag_ff: "strip_nul tag_ff = [255]"
proof -
  have "strip_nul ([255] @ replicate 11 0) = [255]"
    by (rule strip_nul_pad) simp_all
  then show ?thesis by (simp add: tag_ff_def)
qed

lemma source_untouched_world1:
  "world1 (location_of (source_bucket migrator1)) key1
   = snd (migrate spec_externals migrator1 key1 world1) (location_of (source_bucket migrator1)) key1"
  unfolding migrate_world1 snd_conv
  by (simp add: upload_to_target_bucket_def put_object_def migrator1_def
      location_of_def scfg_def tcfg_def ascii_def)

subsection \<open>The claims\<close>

lemma valid_header1: "valid_header header1"
  by (simp add: valid_header_def header1_def int64_def magic1_def tag_s3_def bytes_lit_def)

lemma valid_descriptor1: "valid_descriptor descriptor1"
  by (simp add: valid_descriptor_def descriptor1_def bytes_lit_def)

text \<open>
  C8. Round trip. For every structurally valid header \<open>h\<close> (9-byte magic, one-byte
  version, four integers in the signed 64-bit range, 12-byte type tag), \<^verbatim>\<open>struct.pack\<close>
  succeeds with 54 bytes and decoding them as \<^verbatim>\<open>get_header\<close> does gives \<open>h\<close> again. For
  every valid descriptor, decoding its tagged-value encoding gives the descriptor again;
  this half is about the codec modelled from the specification, since the code's codec is
  the external library pygob.
\<close>

theorem header_and_descriptor_roundtrip:
  "(valid_header h \<longrightarrow>
      (\<exists>bs. struct_pack h = Inr bs \<and> length bs = 54 \<and> decode_header bs = Inr h))
   \<and> (valid_descriptor d \<longrightarrow>
      (\<exists>bs. spec_dump_info d = Inr bs \<and> spec_load_info bs = Inr d))"
  using struct_pack_valid [of h] spec_load_dump_info [of d] by blast

theorem header_and_descriptor_roundtrip_witness:
  "valid_header header1 \<and> valid_descriptor descriptor1
   \<and> (\<exists>bs. struct_pack header1 = Inr bs \<and> length bs = 54 \<and> decode_header bs = Inr header1)
   \<and> (\<exists>bs. spec_dump_info descriptor1 = Inr bs \<and> spec_load_info bs = Inr descriptor1)"
  using header_and_descriptor_roundtrip [of header1 descriptor1] valid_header1 valid_descriptor1
  by blast

text \<open>
  C5. Key preservation. Whenever \<^verbatim>\<open>migrate\<close> returns normally, the descriptor \<open>info\<close> it
  serialises into the uploaded archive has the \<^verbatim>\<open>Key\<close> of the descriptor \<open>s3_info\<close> decoded
  from the source archive, byte for byte; the bytes written are the wrapper around the
  serialised \<open>info\<close>, and they stand in the object put under the same key in the target
  bucket.
\<close>

theorem migrate_preserves_key:
  assumes "migrate ex self image_key w = (Inr (), w')"
  shows "\<exists>header s3_info info data wrapper_data hb full_data.
      get_header self image_key w = Inr header
    \<and> get_s3_storage_info ex self image_key (storage_info_pos header)
          (storage_info_length header) w = Inr s3_info
    \<and> new_s3_info self s3_info = Inr info
    \<and> Key info = Key s3_info
    \<and> pygob_dump_info ex info = Inr data
    \<and> pygob_dump_wrapper ex \<lparr>Type = bytes_lit ''s3'', Data = data\<rparr> = Inr wrapper_data
    \<and> w' (location_of (target_bucket self)) image_key =
          Some (hb @ py_slice full_data 54 (storage_info_pos header) @ wrapper_data
                @ py_slice_from full_data (storage_info_pos header + int (length wrapper_data)))"
proof -
  from assms obtain header s3_info info wd full hb where s:
    "get_header self image_key w = Inr header"
    "get_s3_storage_info ex self image_key (storage_info_pos header) (storage_info_length header) w
       = Inr s3_info"
    "new_s3_info self s3_info = Inr info"
    "new_wrapper_data ex info = Inr wd"
    "download_full_archive self image_key w = Inr full"
    "struct_pack (header\<lparr>storage_info_length := int (length wd)\<rparr>) = Inr hb"
    "w' (location_of (target_bucket self)) image_key =
       Some (hb @ py_slice full 54 (storage_info_pos header) @ wd
             @ py_slice_from full (storage_info_pos header + int (length wd)))"
    "get_header (reader self) image_key w' = Inr (header\<lparr>storage_info_length := int (length wd)\<rparr>)"
    by (rule migrate_uploaded_header)
  from s(4) obtain d where d: "pygob_dump_info ex info = Inr d"
    "pygob_dump_wrapper ex \<lparr>Type = bytes_lit ''s3'', Data = d\<rparr> = Inr wd"
    by (rule new_wrapper_data_cases)
  show ?thesis
    by (intro exI conjI, rule s(1), rule s(2), rule s(3), rule new_s3_info_Key [OF s(3)],
        rule d(1), rule d(2), rule s(7))
qed

text \<open>C5 on archive 1: the key \<^verbatim>\<open>k\<close> of the stored descriptor is the key read back from the
  uploaded archive.\<close>

theorem migrate_preserves_key_witness:
  "migrate spec_externals migrator1 key1 world1 =
     (Inr (), upload_to_target_bucket migrator1 key1
                (header_bytes 20 110 68 54 tag_s3 @ section1_new @ drop 12 index1) world1)
   \<and> read_descriptor spec_externals migrator1 key1 world1 = Inr descriptor1
   \<and> read_descriptor spec_externals (reader migrator1) key1
         (upload_to_target_bucket migrator1 key1
            (header_bytes 20 110 68 54 tag_s3 @ section1_new @ drop 12 index1) world1)
       = Inr descriptor1_new
   \<and> Key descriptor1_new = Key descriptor1
   \<and> (\<exists>header s3_info info data wrapper_data hb full_data.
      get_header migrator1 key1 world1 = Inr header
    \<and> get_s3_storage_info spec_externals migrator1 key1 (storage_info_pos header)
          (storage_info_length header) world1 = Inr s3_info
    \<and> new_s3_info migrator1 s3_info = Inr info
    \<and> Key info = Key s3_info
    \<and> pygob_dump_info spec_externals info = Inr data
    \<and> pygob_dump_wrapper spec_externals \<lparr>Type = bytes_lit ''s3'', Data = data\<rparr>
        = Inr wrapper_data
    \<and> upload_to_target_bucket migrator1 key1
          (header_bytes 20 110 68 54 tag_s3 @ section1_new @ drop 12 index1) world1
          (location_of (target_bucket migrator1)) key1 =
          Some (hb @ py_slice full_data 54 (storage_info_pos header) @ wrapper_data
                @ py_slice_from full_data (storage_info_pos header + int (length wrapper_data))))"
proof -
  have r: "read_descriptor spec_externals migrator1 key1 world1 = Inr descriptor1"
    by (simp add: read_descriptor_def get_header_world1 header1_def descriptor_world1)
  have k: "Key descriptor1_new = Key descriptor1"
    by (simp add: descriptor1_new_def descriptor1_def)
  from migrate_preserves_key [OF migrate_world1] migrate_world1 r read_back_world1 k
  show ?thesis by blast
qed

text \<open>
  C6. Whenever \<^verbatim>\<open>migrate\<close> returns normally, the header at the start of the uploaded archive
  decodes (as \<^verbatim>\<open>get_header\<close> decodes it, read from the target bucket) to a header whose
  \<^verbatim>\<open>storage_info_length\<close> is the byte length of the newly serialised wrapper, the very
  bytes spliced into the archive.
\<close>

theorem migrate_storage_info_length:
  assumes "migrate ex self image_key w = (Inr (), w')"
  shows "\<exists>(header :: ClipArchiveHeader) info wrapper_data hb full_data header'.
      new_wrapper_data ex info = Inr wrapper_data
    \<and> w' (location_of (target_bucket self)) image_key =
          Some (hb @ py_slice full_data 54 (storage_info_pos header) @ wrapper_data
                @ py_slice_from full_data (storage_info_pos header + int (length wrapper_data)))
    \<and> get_header (reader self) image_key w' = Inr header'
    \<and> storage_info_length header' = int (length wrapper_data)"
proof -
  from assms obtain header s3_info info wd full hb where s:
    "get_header self image_key w = Inr header"
    "get_s3_storage_info ex self image_key (storage_info_pos header) (storage_info_length header) w
       = Inr s3_info"
    "new_s3_info self s3_info = Inr info"
    "new_wrapper_data ex info = Inr wd"
    "download_full_archive self image_key w = Inr full"
    "struct_pack (header\<lparr>storage_info_length := int (length wd)\<rparr>) = Inr hb"
    "w' (location_of (target_bucket self)) image_key =
       Some (hb @ py_slice full 54 (storage_info_pos header) @ wd
             @ py_slice_from full (storage_info_pos header + int (length wd)))"
    "get_header (reader self) image_key w' = Inr (header\<lparr>storage_info_length := int (length wd)\<rparr>)"
    by (rule migrate_uploaded_header)
  show ?thesis
    using s(4,7,8)
    by (intro exI [of _ header] exI [of _ info] exI [of _ wd] exI [of _ hb] exI [of _ full]
        exI [of _ "header\<lparr>storage_info_length := int (length wd)\<rparr>"]) simp
qed

text \<open>C6 on archive 1: the new section has 68 bytes.\<close>

theorem migrate_storage_info_length_witness:
  "migrate spec_externals migrator1 key1 world1 =
     (Inr (), upload_to_target_bucket migrator1 key1
                (header_bytes 20 110 68 54 tag_s3 @ section1_new @ drop 12 index1) world1)
   \<and> length section1_new = 68
   \<and> (\<exists>(header :: ClipArchiveHeader) info wrapper_data hb full_data header'.
      new_wrapper_data spec_externals info = Inr wrapper_data
    \<and> upload_to_target_bucket migrator1 key1
          (header_bytes 20 110 68 54 tag_s3 @ section1_new @ drop 12 index1) world1
          (location_of (target_bucket migrator1)) key1 =
          Some (hb @ py_slice full_data 54 (storage_info_pos header) @ wrapper_data
                @ py_slice_from full_data (storage_info_pos header + int (length wrapper_data)))
    \<and> get_header (reader migrator1) key1
          (upload_to_target_bucket migrator1 key1
             (header_bytes 20 110 68 54 tag_s3 @ section1_new @ drop 12 index1) world1)
        = Inr header'
    \<and> storage_info_length header' = int (length wrapper_data))"
  using migrate_storage_info_length [OF migrate_world1] migrate_world1 length_section1_new
  by blast

text \<open>
  C3, as amended. Whenever \<^verbatim>\<open>migrate\<close> returns normally, the header re-encoded into the
  uploaded archive carries \<^verbatim>\<open>index_pos\<close>, \<^verbatim>\<open>index_length\<close> and \<^verbatim>\<open>storage_info_pos\<close>
  unchanged from the source header, whatever the difference between the new and the old
  section length: \<^verbatim>\<open>update_binary\<close> has no offset adjustment.
\<close>

theorem migrate_keeps_index_pos:
  assumes "migrate ex self image_key w = (Inr (), w')"
  shows "\<exists>header header'.
      get_header self image_key w = Inr header
    \<and> get_header (reader self) image_key w' = Inr header'
    \<and> index_pos header' = index_pos header
    \<and> index_length header' = index_length header
    \<and> storage_info_pos header' = storage_info_pos header"
proof -
  from assms obtain header s3_info info wd full hb where s:
    "get_header self image_key w = Inr header"
    "get_s3_storage_info ex self image_key (storage_info_pos header) (storage_info_length header) w
       = Inr s3_info"
    "new_s3_info self s3_info = Inr info"
    "new_wrapper_data ex info = Inr wd"
    "download_full_archive self image_key w = Inr full"
    "struct_pack (header\<lparr>storage_info_length := int (length wd)\<rparr>) = Inr hb"
    "w' (location_of (target_bucket self)) image_key =
       Some (hb @ py_slice full 54 (storage_info_pos header) @ wd
             @ py_slice_from full (storage_info_pos header + int (length wd)))"
    "get_header (reader self) image_key w' = Inr (header\<lparr>storage_info_length := int (length wd)\<rparr>)"
    by (rule migrate_uploaded_header)
  show ?thesis
    using s(1,8)
    by (intro exI [of _ header]
        exI [of _ "header\<lparr>storage_info_length := int (length wd)\<rparr>"]) simp
qed

text \<open>The amended C3 on archive 1.\<close>

theorem migrate_keeps_index_pos_witness:
  "migrate spec_externals migrator1 key1 world1 =
     (Inr (), upload_to_target_bucket migrator1 key1
                (header_bytes 20 110 68 54 tag_s3 @ section1_new @ drop 12 index1) world1)
   \<and> (\<exists>header header'.
      get_header migrator1 key1 world1 = Inr header
    \<and> get_header (reader migrator1) key1
          (upload_to_target_bucket migrator1 key1
             (header_bytes 20 110 68 54 tag_s3 @ section1_new @ drop 12 index1) world1)
        = Inr header'
    \<and> index_pos header' = index_pos header
    \<and> index_length header' = index_length header
    \<and> storage_info_pos header' = storage_info_pos header)"
  using migrate_keeps_index_pos [OF migrate_world1] migrate_world1 by blast

text \<open>
  C3 as stated fails on archive 1: the index lies at 110, the old end of the descriptor
  section (54 + 56); the new section has 68 bytes, 12 more; the header of the uploaded
  archive still says 110 for \<^verbatim>\<open>index_pos\<close>, not 122.
\<close>

theorem index_pos_not_shifted_counterexample:
  "get_header migrator1 key1 world1 = Inr header1
   \<and> storage_info_pos header1 + storage_info_length header1 \<le> index_pos header1
   \<and> new_wrapper_data spec_externals descriptor1_new = Inr section1_new
   \<and> int (length section1_new) - storage_info_length header1 = 12
   \<and> get_header (reader migrator1) key1 (snd (migrate spec_externals migrator1 key1 world1))
       = Inr (header1\<lparr>storage_info_length := 68\<rparr>)
   \<and> index_pos (header1\<lparr>storage_info_length := 68\<rparr>) \<noteq> index_pos header1 + 12"
  by (simp add: get_header_world1 new_wrapper_data_1 length_section1_new uploaded_header_world1)
    (simp add: header1_def)

text \<open>
  C10, as amended. For a call of \<^verbatim>\<open>update_binary\<close> as \<^verbatim>\<open>migrate\<close> makes it (the header's
  \<^verbatim>\<open>storage_info_length\<close> already set to the length of the new section), the result has the
  length of \<^verbatim>\<open>full_data\<close> provided the section starts at or after the header
  (\<open>54 \<le> storage_info_pos\<close>) and the new section fits inside the archive
  (\<open>storage_info_pos + len(new) \<le> len(full_data)\<close>).
\<close>

theorem update_binary_same_length:
  assumes "update_binary full_data header new_s3_info_data = Inr updated_data"
    and "storage_info_length header = int (length new_s3_info_data)"
    and "54 \<le> storage_info_pos header"
    and "storage_info_pos header + int (length new_s3_info_data) \<le> int (length full_data)"
  shows "length updated_data = length full_data"
proof -
  from assms(1) obtain hb where hb: "length hb = 54"
    "updated_data = hb @ py_slice full_data 54 (storage_info_pos header) @ new_s3_info_data
           @ py_slice_from full_data (storage_info_pos header + storage_info_length header)"
    by (rule update_binary_cases)
  define p where "p = nat (storage_info_pos header)"
  have p: "storage_info_pos header = int p" "54 \<le> p" "p + length new_s3_info_data \<le> length full_data"
    using assms(3,4) by (simp_all add: p_def)
  have 1: "length (py_slice full_data 54 (storage_info_pos header)) = p - 54"
    using p length_py_slice [of 54 "int p" full_data] by simp
  have 2: "length (py_slice_from full_data (storage_info_pos header + storage_info_length header))
      = length full_data - (p + length new_s3_info_data)"
    using p assms(2) length_py_slice_from [of "int (p + length new_s3_info_data)" full_data]
    by simp
  show ?thesis
    using 1 2 p hb(1) unfolding hb(2) by simp
qed

text \<open>The amended C10 on archive 1: 130 bytes in, 130 bytes out.\<close>

theorem update_binary_same_length_witness:
  "update_binary archive1 (header1\<lparr>storage_info_length := 68\<rparr>) section1_new =
     Inr (header_bytes 20 110 68 54 tag_s3 @ section1_new @ drop 12 index1)
   \<and> storage_info_length (header1\<lparr>storage_info_length := 68\<rparr>) = int (length section1_new)
   \<and> 54 \<le> storage_info_pos (header1\<lparr>storage_info_length := 68\<rparr>)
   \<and> storage_info_pos (header1\<lparr>storage_info_length := 68\<rparr>) + int (length section1_new)
       \<le> int (length archive1)
   \<and> length (header_bytes 20 110 68 54 tag_s3 @ section1_new @ drop 12 index1) = length archive1"
proof -
  have a: "storage_info_length (header1\<lparr>storage_info_length := 68\<rparr>) = int (length section1_new)"
    by (simp add: length_section1_new)
  have b: "54 \<le> storage_info_pos (header1\<lparr>storage_info_length := 68\<rparr>)"
    by (simp add: header1_def)
  have c: "storage_info_pos (header1\<lparr>storage_info_length := 68\<rparr>) + int (length section1_new)
       \<le> int (length archive1)"
    by (simp add: header1_def length_section1_new archive1_def length_header_bytes length_tags
        length_section1 index1_def)
  from update_binary_same_length [OF update_binary_1 a b c] update_binary_1 a b c
  show ?thesis by blast
qed

text \<open>
  C10 as stated fails on archive 2, where the descriptor section is the last one
  (at 57, 56 bytes, archive of 113 bytes): the new section has 68 bytes,
  \<^verbatim>\<open>full_data[57 + 68:]\<close> is empty, and \<^verbatim>\<open>update_binary\<close> returns 125 bytes.
\<close>

theorem update_binary_length_counterexample:
  "migrate spec_externals migrator1 key1 world2 =
     (Inr (), upload_to_target_bucket migrator1 key1
                (header_bytes 3 54 68 57 tag_s3 @ [1, 2, 3] @ section1_new) world2)
   \<and> update_binary archive2 (header2\<lparr>storage_info_length := int (length section1_new)\<rparr>)
         section1_new
       = Inr (header_bytes 3 54 68 57 tag_s3 @ [1, 2, 3] @ section1_new)
   \<and> length (header_bytes 3 54 68 57 tag_s3 @ [1, 2, 3] @ section1_new) = 125
   \<and> length archive2 = 113"
  by (simp add: migrate_world2 length_section1_new update_binary_2 length_header_bytes
      length_tags length_archive2)

text \<open>
  C2. The splice of the specification keeps every byte after the old section's end. On
  archive 1 (descriptor section at 54, 56 bytes, then the 20-byte index) the code does
  not: the new section has 68 bytes, the tail is taken from \<open>54 + 68\<close> instead of
  \<open>54 + 56\<close>, and the first 12 bytes of the index are missing from the uploaded archive.
\<close>

theorem splice_drops_bytes_after_section:
  "snd (migrate spec_externals migrator1 key1 world1) (location_of (target_bucket migrator1)) key1
     = Some (header_bytes 20 110 68 54 tag_s3 @ section1_new @ drop 12 index1)
   \<and> spec_splice (header_bytes 20 110 68 54 tag_s3) archive1 54 56 section1_new
     = header_bytes 20 110 68 54 tag_s3 @ section1_new @ index1
   \<and> drop 12 index1 = [13, 14, 15, 16, 17, 18, 19, 20]
   \<and> length index1 = 20"
proof -
  have "spec_splice (header_bytes 20 110 68 54 tag_s3) archive1 54 56 section1_new
     = header_bytes 20 110 68 54 tag_s3 @ section1_new @ index1"
    by (simp add: spec_splice_def archive1_def length_header_bytes length_tags length_section1)
  then show ?thesis
    by (simp add: migrate_world1 uploaded_object) (simp add: index1_def)
qed

text \<open>
  C1. On archive 1, migrated from the source configuration (bucket \<^verbatim>\<open>src\<close>, region
  \<^verbatim>\<open>auto\<close>, endpoint \<^verbatim>\<open>http://s\<close>) to the target configuration (bucket \<^verbatim>\<open>tgt\<close>, region
  \<^verbatim>\<open>us\<close>, endpoint \<^verbatim>\<open>http://t\<close>), the descriptor read back from the uploaded archive
  carries the coordinates of the source, not of the target.
\<close>

theorem rebuilt_descriptor_has_source_coordinates:
  "read_descriptor spec_externals (reader migrator1) key1
     (snd (migrate spec_externals migrator1 key1 world1)) = Inr descriptor1_new
   \<and> utf8_encode (bucket (source_bucket migrator1)) = Inr (Bucket descriptor1_new)
   \<and> utf8_encode (region (source_bucket migrator1)) = Inr (Region descriptor1_new)
   \<and> utf8_encode (endpoint (source_bucket migrator1)) = Inr (Endpoint descriptor1_new)
   \<and> utf8_encode (bucket (target_bucket migrator1)) \<noteq> Inr (Bucket descriptor1_new)
   \<and> utf8_encode (region (target_bucket migrator1)) \<noteq> Inr (Region descriptor1_new)
   \<and> utf8_encode (endpoint (target_bucket migrator1)) \<noteq> Inr (Endpoint descriptor1_new)"
  by (simp add: migrate_world1 read_back_world1)
    (simp add: migrator1_def scfg_def tcfg_def descriptor1_new_def utf8_encode_ascii bytes_lit_def)

text \<open>
  C7. An object of 10 bytes: \<^verbatim>\<open>struct.unpack\<close> raises \<^verbatim>\<open>struct.error\<close>, the handler
  prints it and goes on, and \<^verbatim>\<open>get_header\<close>, hence \<^verbatim>\<open>migrate\<close>, fails with
  \<^verbatim>\<open>UnboundLocalError\<close>.
\<close>

theorem short_header_unbound_local:
  "struct_unpack (take CLIP_ARCHIVE_HEADER_SIZE (replicate 10 0)) = Inl StructError
   \<and> get_header migrator1 key1 world_short = Inl UnboundLocalError
   \<and> migrate spec_externals migrator1 key1 world_short = (Inl UnboundLocalError, world_short)"
proof -
  have g: "get_header migrator1 key1 world_short = Inl UnboundLocalError"
    by (simp add: get_header_def world_short_def migrator1_def get_object_def put_object_def
        CLIP_ARCHIVE_HEADER_SIZE_def decode_header_short)
  show ?thesis
    by (simp add: g migrate_def struct_unpack_def CLIP_ARCHIVE_HEADER_SIZE_def)
qed

text \<open>
  C4. For every header whose NUL-stripped \<^verbatim>\<open>storage_info_type\<close> is not \<^verbatim>\<open>s3\<close>,
  \<^verbatim>\<open>migrate\<close> is to fail with the error for an unknown tag and write nothing. On the
  archive whose tag is the byte \<open>0xFF\<close> and 11 NULs the code writes nothing, but it fails
  in \<^verbatim>\<open>decode("utf-8")\<close> on line 99 with \<^verbatim>\<open>UnicodeDecodeError\<close> and never reaches the
  \<^verbatim>\<open>raise ValueError("Unknown storage info type: ...")\<close> of line 100, which the tag
  \<^verbatim>\<open>gcs\<close> does reach.
\<close>

theorem non_utf8_tag_raises_decode_error:
  "get_header migrator1 key1 world_ff = Inr (header1\<lparr>storage_info_type := tag_ff\<rparr>)
   \<and> strip_nul tag_ff = [255]
   \<and> utf8_decode [255] = Inl UnicodeDecodeError
   \<and> migrate spec_externals migrator1 key1 world_ff = (Inl UnicodeDecodeError, world_ff)
   \<and> UnicodeDecodeError \<noteq> UnknownStorageInfoType tag_ff
   \<and> get_header migrator1 key1 world_gcs = Inr (header1\<lparr>storage_info_type := tag_gcs\<rparr>)
   \<and> strip_nul tag_gcs = bytes_lit ''gcs''
   \<and> migrate spec_externals migrator1 key1 world_gcs
       = (Inl (UnknownStorageInfoType tag_gcs), world_gcs)"
proof -
  have g: "strip_nul (storage_info_type (header1\<lparr>storage_info_type := tag_gcs\<rparr>)) \<noteq> bytes_lit ''s3''"
    by (simp add: strip_tag_gcs bytes_lit_def)
  have f: "strip_nul (storage_info_type (header1\<lparr>storage_info_type := tag_ff\<rparr>)) \<noteq> bytes_lit ''s3''"
    by (simp add: strip_tag_ff bytes_lit_def)
  have dg: "utf8_decode (bytes_lit ''gcs'') = Inr (ascii ''gcs'')"
    by (simp add: bytes_lit_def ascii_def cons_cp_def)
  have df: "utf8_decode [255] = Inl UnicodeDecodeError"
    by simp
  from migrate_unknown_tag [OF get_header_world_gcs g, of spec_externals]
  have 1: "migrate spec_externals migrator1 key1 world_gcs
       = (Inl (UnknownStorageInfoType tag_gcs), world_gcs)"
    by (simp add: strip_tag_gcs dg)
  from migrate_unknown_tag [OF get_header_world_ff f, of spec_externals]
  have 2: "migrate spec_externals migrator1 key1 world_ff = (Inl UnicodeDecodeError, world_ff)"
    by (simp add: strip_tag_ff df)
  from get_header_world_gcs 1 get_header_world_ff 2 strip_tag_ff strip_tag_gcs df
  show ?thesis by simp
qed

text \<open>
  C9. \<^verbatim>\<open>migrate\<close> is a function of the source archive and the two configurations: two
  runs with the same configurations, from any two states of the object storage that hold
  the same source object (or both none) under the key, end the same way, and when they
  return normally they leave the same bytes under the key in the target bucket.
\<close>

theorem migrate_deterministic:
  assumes "w1 (location_of (source_bucket self)) image_key
         = w2 (location_of (source_bucket self)) image_key"
  shows "fst (migrate ex self image_key w1) = fst (migrate ex self image_key w2)
     \<and> (fst (migrate ex self image_key w1) = Inr () \<longrightarrow>
          (\<exists>data.
              snd (migrate ex self image_key w1) (location_of (target_bucket self)) image_key
                = Some data
            \<and> snd (migrate ex self image_key w2) (location_of (target_bucket self)) image_key
                = Some data))"
proof (intro conjI impI)
  show "fst (migrate ex self image_key w1) = fst (migrate ex self image_key w2)"
    using assms by (rule migrate_fst_cong)
next
  assume "fst (migrate ex self image_key w1) = Inr ()"
  then have "migrate ex self image_key w1 = (Inr (), snd (migrate ex self image_key w1))"
    by (metis prod.collapse)
  from migrate_upload_cong [of w1 self image_key w2 ex "snd (migrate ex self image_key w1)",
      OF assms this] obtain data where
    "snd (migrate ex self image_key w1) = upload_to_target_bucket self image_key data w1"
    "migrate ex self image_key w2 = (Inr (), upload_to_target_bucket self image_key data w2)"
    by blast
  then show "\<exists>data.
      snd (migrate ex self image_key w1) (location_of (target_bucket self)) image_key = Some data
    \<and> snd (migrate ex self image_key w2) (location_of (target_bucket self)) image_key = Some data"
    by (simp add: uploaded_object)
qed

text \<open>C9 on archive 1: a second run, after the first, uploads the same archive again.\<close>

theorem migrate_deterministic_witness:
  "world1 (location_of (source_bucket migrator1)) key1
     = snd (migrate spec_externals migrator1 key1 world1) (location_of (source_bucket migrator1)) key1
   \<and> fst (migrate spec_externals migrator1 key1 world1) = Inr ()
   \<and> fst (migrate spec_externals migrator1 key1
             (snd (migrate spec_externals migrator1 key1 world1))) = Inr ()
   \<and> snd (migrate spec_externals migrator1 key1
             (snd (migrate spec_externals migrator1 key1 world1)))
         (location_of (target_bucket migrator1)) key1
       = snd (migrate spec_externals migrator1 key1 world1)
           (location_of (target_bucket migrator1)) key1"
proof -
  have 1: "fst (migrate spec_externals migrator1 key1 world1) = Inr ()"
    by (simp add: migrate_world1)
  from migrate_deterministic [of world1 migrator1 key1
      "snd (migrate spec_externals migrator1 key1 world1)" spec_externals,
      OF source_untouched_world1] 1 source_untouched_world1
  show ?thesis by auto
qed

end
